theory Spec2Isabelle
  imports Complex_Main "HOL-Library.Word" "HOL-Library.AList"
begin

unbundle bit_operations_syntax

section \<open>The form validator\<close>

subsection \<open>Enumerations\<close>

text \<open>
  The validator keeps its status and behaviour flags in JavaScript numbers that are only
  ever combined with the bitwise operators, which work on 32-bit integers.
\<close>

type_synonym flags = "32 word"

definition StateEnum_PASS :: flags where "StateEnum_PASS = 0"
definition StateEnum_WARN :: flags where "StateEnum_WARN = 1"
definition StateEnum_FAIL :: flags where "StateEnum_FAIL = 2"

definition SubmitEnum_NONE :: flags where "SubmitEnum_NONE = 0"
definition SubmitEnum_ICON :: flags where "SubmitEnum_ICON = 1"
definition SubmitEnum_HIGHLIGHT :: flags where "SubmitEnum_HIGHLIGHT = 2"
definition SubmitEnum_HELP :: flags where "SubmitEnum_HELP = 4"
definition SubmitEnum_SUMMARY :: flags where "SubmitEnum_SUMMARY = 8"
definition SubmitEnum_DISABLE :: flags where "SubmitEnum_DISABLE = 16"

definition ValidateEnum_NONE :: flags where "ValidateEnum_NONE = 0"
definition ValidateEnum_ICON :: flags where "ValidateEnum_ICON = 1"
definition ValidateEnum_HIGHLIGHT :: flags where "ValidateEnum_HIGHLIGHT = 2"
definition ValidateEnum_HELP :: flags where "ValidateEnum_HELP = 4"

subsection \<open>Strings\<close>

text \<open>
  Strings are lists of characters with code points below 256. \<open>trim\<close> removes the
  white space of JavaScript's \<open>String.prototype.trim\<close> that lies in this range.
\<close>

definition is_space :: "char \<Rightarrow> bool" where
  "is_space c = (c = CHR 0x09 \<or> c = CHR 0x0A \<or> c = CHR 0x0B \<or> c = CHR 0x0C
     \<or> c = CHR 0x0D \<or> c = CHR 0x20 \<or> c = CHR 0xA0)"

definition trim :: "string \<Rightarrow> string" where
  "trim s = rev (dropWhile is_space (rev (dropWhile is_space s)))"

definition isEmpty :: "string \<Rightarrow> bool" where
  "isEmpty inputStr = (trim inputStr = [])"

subsection \<open>Controls, rules and targets\<close>

text \<open>
  A control is an element of the page, with its id, its name and its tag. The key of a
  control is \<open>id || name\<close>.
\<close>

record control =
  ctl_id :: string
  ctl_name :: string
  tagName :: string

definition control_key :: "control \<Rightarrow> string" where
  "control_key c = (if ctl_id c \<noteq> [] then ctl_id c else ctl_name c)"

text \<open>
  The page. What the validator reads through jQuery is a field of the page: the value of a
  control, the text of its selected option, whether it has an ancestor of class
  \<open>disabled\<close>, its \<open>date-window\<close> attribute, the text of its label, and \<open>helpId\<close>, the id of
  the help element that the look-up in \<open>setValidationResults\<close> arrives at
  (\<open>aria-describedby\<close>, then a \<open>.help-block\<close> under the parent, else a new label). What the
  validator changes: the help blocks of the scope in document order, a new one being put at
  the end; the handlers bound with \<open>on\<close>, each with its trigger control, its event and the
  key of its target; whether the submit buttons have the class \<open>disabled\<close>; the title and
  message of the popup; and the arguments of the calls of the \<open>postValidation\<close> callback,
  oldest first. The \<open>aria\<close> attributes, the icon, the highlight class and the indicator
  element are left out.
\<close>

record helpBlock =
  html :: string
  hidden :: bool

record dom =
  val :: "control \<Rightarrow> string"
  selectedText :: "control \<Rightarrow> string"
  disabledAncestor :: "control \<Rightarrow> bool"
  dateWindow :: "control \<Rightarrow> string option"
  labelHtml :: "control \<Rightarrow> string"
  helpId :: "control \<Rightarrow> string"
  helpBlocks :: "(string \<times> helpBlock) list"
  handlers :: "(control \<times> string \<times> string) list"
  submitDisabled :: bool
  popup :: "(string \<times> string) option"
  postCalls :: "bool list"

text \<open>
  A validation function reports through \<open>target.fail\<close> and \<open>target.warn\<close>: its method is
  a function from the page, the control and the name of the target to these calls in
  their order. The counts in \<open>refCount\<close> are JavaScript numbers that are integers or, after
  the decrement of an absent count, \<open>NaN\<close>. Objects are association lists in the order in
  which their properties were added.
\<close>

datatype outcome = Fail string | Warn string

datatype number = NaN | Num int

record validation =
  lock :: bool
  refCount :: "(string \<times> number) list"
  method_fn :: "dom \<Rightarrow> control \<Rightarrow> string \<Rightarrow> outcome list"

record target =
  key :: string
  control :: control
  name :: string
  state :: flags
  messages :: "string list"
  validations :: "(string \<times> validation) list"

record validator =
  targets :: "(string \<times> target) list"
  validationBehavior :: flags
  submitBehavior :: flags
  postValidation :: bool

definition Validator_state :: "validator \<Rightarrow> flags" where
  "Validator_state V = foldl (\<lambda>s (k, t). s OR state t) StateEnum_PASS (targets V)"

subsection \<open>Messages and status of a target\<close>

definition Target_addMessage :: "string \<Rightarrow> target \<Rightarrow> target" where
  "Target_addMessage message t =
     (if message \<in> set (messages t) then t else t\<lparr>messages := messages t @ [message]\<rparr>)"

definition Target_fail :: "string \<Rightarrow> target \<Rightarrow> target" where
  "Target_fail message t =
     Target_addMessage (''Error: '' @ message) (t\<lparr>state := state t OR StateEnum_FAIL\<rparr>)"

definition Target_warn :: "string \<Rightarrow> target \<Rightarrow> target" where
  "Target_warn message t =
     Target_addMessage (''Warning: '' @ message) (t\<lparr>state := state t OR StateEnum_WARN\<rparr>)"

definition Target_fullMessage :: "target \<Rightarrow> string" where
  "Target_fullMessage t =
     foldl (\<lambda>m msg. (if m \<noteq> [] then m @ [CHR 0x0A] else m) @ msg) [] (messages t)"

fun apply_outcome :: "target \<Rightarrow> outcome \<Rightarrow> target" where
  "apply_outcome t (Fail message) = Target_fail message t"
| "apply_outcome t (Warn message) = Target_warn message t"

subsection \<open>Rendering the result of a target\<close>

definition set_help :: "string \<Rightarrow> helpBlock \<Rightarrow> dom \<Rightarrow> dom" where
  "set_help h b d = d\<lparr>helpBlocks := map (\<lambda>(i, x). if i = h then (i, b) else (i, x)) (helpBlocks d)\<rparr>"

definition find_help :: "control \<Rightarrow> dom \<Rightarrow> dom" where
  "find_help c d =
     (if map_of (helpBlocks d) (helpId d c) = None
      then d\<lparr>helpBlocks := helpBlocks d @ [(helpId d c, \<lparr>html = [], hidden = True\<rparr>)]\<rparr>
      else d)"

definition Target_setValidationResults :: "validator \<Rightarrow> bool \<Rightarrow> target \<Rightarrow> dom \<Rightarrow> dom" where
  "Target_setValidationResults V submitting t d =
     (let c = control t;
          help = helpId d c;
          d1 = set_help help \<lparr>html = [], hidden = True\<rparr> (find_help c d)
      in if state t = StateEnum_PASS
            \<and> (if tagName c = ''SELECT'' then isEmpty (selectedText d c) else isEmpty (val d c))
         then d1
         else
           let relevantBehavior = (if submitting then submitBehavior V else validationBehavior V);
               relevantHELP = (if submitting then SubmitEnum_HELP else ValidateEnum_HELP)
           in set_help help
                \<lparr>html = Target_fullMessage t,
                 hidden = (relevantBehavior AND relevantHELP \<noteq> relevantHELP)\<rparr> d1)"

definition Target_clear :: "validator \<Rightarrow> target \<Rightarrow> dom \<Rightarrow> target \<times> dom" where
  "Target_clear V t d =
     (let t' = t\<lparr>state := StateEnum_PASS, messages := []\<rparr>
      in (t', Target_setValidationResults V False t' d))"

subsection \<open>Validation passes\<close>

text \<open>
  A method cannot start another pass in this model, so \<open>validateAll\<close> only tests the lock
  of a rule; after the pass every lock is false.
\<close>

definition run_method :: "dom \<Rightarrow> target \<Rightarrow> validation \<Rightarrow> target" where
  "run_method d t v =
     (if \<not> lock v then foldl apply_outcome t (method_fn v d (control t) (name t)) else t)"

definition Target_validateAll :: "validator \<Rightarrow> bool \<Rightarrow> target \<Rightarrow> dom \<Rightarrow> target \<times> dom" where
  "Target_validateAll V submitting t d =
     (let (t1, d1) = Target_clear V t d
      in if \<not> disabledAncestor d1 (control t1)
         then
           let t2 = foldl (run_method d1) t1 (map snd (validations t1));
               t3 = t2\<lparr>validations := map (\<lambda>(n, v). (n, v\<lparr>lock := False\<rparr>)) (validations t2)\<rparr>
           in (t3, Target_setValidationResults V submitting t3 d1)
         else (t1, d1))"

definition Validator_post :: "validator \<Rightarrow> dom \<Rightarrow> dom" where
  "Validator_post V d =
     (let hasFailures = (Validator_state V AND StateEnum_FAIL \<noteq> StateEnum_FAIL);
          d1 = (if postValidation V then d\<lparr>postCalls := postCalls d @ [hasFailures]\<rparr> else d)
      in if submitBehavior V = SubmitEnum_DISABLE
         then d1\<lparr>submitDisabled := hasFailures\<rparr>
         else d1)"

fun validate_targets ::
  "validator \<Rightarrow> bool \<Rightarrow> (string \<times> target) list \<Rightarrow> dom \<Rightarrow> (string \<times> target) list \<times> dom" where
  "validate_targets V submitting [] d = ([], d)"
| "validate_targets V submitting ((k, t) # ts) d =
     (let (t', d') = Target_validateAll V submitting t d;
          (ts', d'') = validate_targets V submitting ts d'
      in ((k, t') # ts', d''))"

definition Validator_validateAll :: "bool \<Rightarrow> validator \<Rightarrow> dom \<Rightarrow> validator \<times> dom" where
  "Validator_validateAll submitting V d =
     (let (ts, d1) = validate_targets V submitting (targets V) d;
          V1 = V\<lparr>targets := ts\<rparr>
      in (V1, Validator_post V1 d1))"

definition Target_validate :: "string \<Rightarrow> validator \<Rightarrow> dom \<Rightarrow> validator \<times> dom" where
  "Target_validate k V d =
     (case map_of (targets V) k of
        None \<Rightarrow> (V, d)
      | Some t \<Rightarrow>
          let (t', d') = Target_validateAll V False t d;
              V' = V\<lparr>targets := AList.update k t' (targets V)\<rparr>
          in (V', Validator_post V' d'))"

subsection \<open>Submission\<close>

record event =
  propagationStopped :: bool
  defaultPrevented :: bool

definition replace_all :: "char \<Rightarrow> string \<Rightarrow> string \<Rightarrow> string" where
  "replace_all c r s = concat (map (\<lambda>x. if x = c then r else [x]) s)"

definition localMessage :: "string \<Rightarrow> string" where
  "localMessage h =
     replace_all (CHR 0x09) ''&nbsp;&nbsp;&nbsp;&nbsp;'' (replace_all (CHR 0x0A) ''<br>'' h)"

definition Validator_displayInPopup :: "string \<Rightarrow> string \<Rightarrow> dom \<Rightarrow> dom" where
  "Validator_displayInPopup title message d = d\<lparr>popup := Some (title, message)\<rparr>"

definition Validator_displayAllErrors :: "dom \<Rightarrow> dom" where
  "Validator_displayAllErrors d =
     (let message =
        foldl (\<lambda>m (i, b). if \<not> isEmpty (localMessage (html b))
                          then m @ ''<li>'' @ localMessage (html b) @ ''</li>'' else m)
          ''Please correct all validation errors on this page before submitting.<br><br><ul>''
          (helpBlocks d)
      in Validator_displayInPopup ''Validation Errors'' (message @ ''</ul>'') d)"

definition Validator_isValid ::
  "event option \<Rightarrow> validator \<Rightarrow> dom \<Rightarrow> validator \<times> dom \<times> event option \<times> bool" where
  "Validator_isValid ev V d =
     (let (V1, d1) = Validator_validateAll True V d
      in if Validator_state V1 AND StateEnum_FAIL \<noteq> 0
         then (V1, Validator_displayAllErrors d1,
               map_option (\<lambda>e. e\<lparr>propagationStopped := True, defaultPrevented := True\<rparr>) ev,
               False)
         else (V1, d1, ev, True))"

subsection \<open>Registering and removing rules\<close>

record ValidationFunction =
  vf_name :: string
  vf_method :: "dom \<Rightarrow> control \<Rightarrow> string \<Rightarrow> outcome list"

fun incr :: "number \<Rightarrow> number" where
  "incr NaN = NaN"
| "incr (Num n) = Num (n + 1)"

fun decr :: "number option \<Rightarrow> number" where
  "decr None = NaN"
| "decr (Some NaN) = NaN"
| "decr (Some (Num n)) = Num (n - 1)"

fun less_one :: "number \<Rightarrow> bool" where
  "less_one NaN = False"
| "less_one (Num n) = (n < 1)"

definition add_event ::
  "control \<Rightarrow> string \<Rightarrow> (string \<times> number) list \<times> dom \<Rightarrow> string
     \<Rightarrow> (string \<times> number) list \<times> dom" where
  "add_event triggerControl k rd e =
     (let (rc, d) = rd; eventId = control_key triggerControl @ ''.'' @ e
      in case map_of rc eventId of
           None \<Rightarrow> (AList.update eventId (Num 1) rc,
                    d\<lparr>handlers := handlers d @ [(triggerControl, e, k)]\<rparr>)
         | Some n \<Rightarrow> (AList.update eventId (incr n) rc, d))"

definition Target_addValidation ::
  "control \<Rightarrow> string list \<Rightarrow> ValidationFunction \<Rightarrow> target \<Rightarrow> dom \<Rightarrow> target \<times> dom" where
  "Target_addValidation triggerControl events vf t d =
     (let v = (case map_of (validations t) (vf_name vf) of
                 None \<Rightarrow> \<lparr>lock = False, refCount = [], method_fn = vf_method vf\<rparr>
               | Some v \<Rightarrow> v);
          (rc, d') = foldl (add_event triggerControl (key t)) (refCount v, d) events
      in (t\<lparr>validations := AList.update (vf_name vf) (v\<lparr>refCount := rc\<rparr>) (validations t)\<rparr>, d'))"

definition remove_event ::
  "control \<Rightarrow> (string \<times> number) list \<times> dom \<Rightarrow> string \<Rightarrow> (string \<times> number) list \<times> dom" where
  "remove_event triggerControl rd e =
     (let (rc, d) = rd; eventId = control_key triggerControl @ ''.'' @ e;
          n = decr (map_of rc eventId)
      in if less_one n
         then (AList.delete eventId rc,
               d\<lparr>handlers := filter (\<lambda>(c, e', k). \<not> (c = triggerControl \<and> e' = e)) (handlers d)\<rparr>)
         else (AList.update eventId n rc, d))"

definition remove_rule ::
  "control \<Rightarrow> string list \<Rightarrow> ValidationFunction \<Rightarrow> target \<Rightarrow> dom \<Rightarrow> target \<times> dom" where
  "remove_rule triggerControl events vf t d =
     (case map_of (validations t) (vf_name vf) of
        None \<Rightarrow> (t, d)
      | Some v \<Rightarrow>
          let (rc, d') = foldl (remove_event triggerControl) (refCount v, d) events
          in if rc = []
             then (t\<lparr>validations := AList.delete (vf_name vf) (validations t)\<rparr>, d')
             else (t\<lparr>validations :=
                       AList.update (vf_name vf) (v\<lparr>refCount := rc\<rparr>) (validations t)\<rparr>, d'))"

definition Target_removeValidation ::
  "string \<Rightarrow> control \<Rightarrow> string list \<Rightarrow> ValidationFunction \<Rightarrow> validator \<Rightarrow> dom
     \<Rightarrow> validator \<times> dom" where
  "Target_removeValidation k triggerControl events vf V d =
     (case map_of (targets V) k of
        None \<Rightarrow> (V, d)
      | Some t \<Rightarrow>
          let (t', d') = remove_rule triggerControl events vf t d
          in Target_validate k (V\<lparr>targets := AList.update k t' (targets V)\<rparr>) d')"

text \<open>
  \<open>removeValidation\<close> ends with \<open>this.validate()\<close>, which validates the target and calls
  \<open>post\<close> of its validator, so it is a function of the validator.
  \<open>removeControlFunction\<close> then looks at the rules that the target has left.
\<close>

definition Validator_removeControlFunction ::
  "control \<Rightarrow> control \<Rightarrow> string list \<Rightarrow> ValidationFunction \<Rightarrow> validator \<Rightarrow> dom
     \<Rightarrow> validator \<times> dom" where
  "Validator_removeControlFunction targetControl triggerControl events vf V d =
     (let targetId = control_key targetControl
      in case map_of (targets V) targetId of
           None \<Rightarrow> (V, d)
         | Some t0 \<Rightarrow>
             let (V1, d1) = Target_removeValidation targetId triggerControl events vf V d
             in case map_of (targets V1) targetId of
                  None \<Rightarrow> (V1, d1)
                | Some t \<Rightarrow>
                    if validations t = []
                    then let (t', d2) = Target_clear V1 t d1
                         in (V1\<lparr>targets := AList.delete targetId (targets V1)\<rparr>, d2)
                    else (V1, d1))"

subsection \<open>Adding targets\<close>

text \<open>
  The constructor \<open>ValidationTarget\<close>. An absent \<open>name\<close> argument is the empty
  string, which JavaScript's \<open>||\<close> skips just as it skips \<open>undefined\<close>. The text of the
  label is looked up only when no indicator control is given.
\<close>

definition ValidationTarget :: "dom \<Rightarrow> control \<Rightarrow> string \<Rightarrow> control option \<Rightarrow> target" where
  "ValidationTarget d targetControl nm indicatorControl =
     (let this_name = (if indicatorControl = None
                       then remove1 (CHR '':'') (labelHtml d targetControl) else [])
      in \<lparr>key = control_key targetControl,
          control = targetControl,
          name = (if nm \<noteq> [] then nm
                  else if this_name \<noteq> [] then this_name
                  else if ctl_name targetControl \<noteq> [] then ctl_name targetControl
                  else ctl_id targetControl),
          state = StateEnum_PASS,
          messages = [],
          validations = []\<rparr>)"

definition Validator_addTarget ::
  "dom \<Rightarrow> control \<Rightarrow> string \<Rightarrow> control option \<Rightarrow> validator \<Rightarrow> validator" where
  "Validator_addTarget d targetControl nm indicatorControl V =
     (let targetId = control_key targetControl
      in if map_of (targets V) targetId = None
         then V\<lparr>targets := targets V
                  @ [(targetId, ValidationTarget d targetControl nm indicatorControl)]\<rparr>
         else V)"

subsection \<open>The Required rule\<close>

definition Validator_Required :: ValidationFunction where
  "Validator_Required =
     \<lparr>vf_name = ''Validator_Required'',
      vf_method = (\<lambda>d c nm.
        if tagName c = ''SELECT''
        then (if isEmpty (selectedText d c) then [Fail (nm @ '' is a required field.'')] else [])
        else if isEmpty (val d c) then [Fail (nm @ '' is a required field.'')]
        else [])\<rparr>"

text \<open>
  \<open>on_target\<close> applies a method of the target object stored under a key and keeps the
  changed object in the validator; \<open>fire\<close> runs the handlers that jQuery has bound to an
  event of a control, each of which is \<open>ValidationTarget.prototype.validate\<close>.
\<close>

definition on_target ::
  "string \<Rightarrow> (target \<Rightarrow> dom \<Rightarrow> target \<times> dom) \<Rightarrow> validator \<Rightarrow> dom \<Rightarrow> validator \<times> dom" where
  "on_target k f V d =
     (case map_of (targets V) k of
        None \<Rightarrow> (V, d)
      | Some t \<Rightarrow> let (t', d') = f t d in (V\<lparr>targets := AList.update k t' (targets V)\<rparr>, d'))"

definition fire :: "control \<Rightarrow> string \<Rightarrow> validator \<Rightarrow> dom \<Rightarrow> validator \<times> dom" where
  "fire c e V d =
     foldl (\<lambda>(V', d') (c', e', k). if c' = c \<and> e' = e then Target_validate k V' d' else (V', d'))
       (V, d) (handlers d)"

definition Validator_require ::
  "control \<Rightarrow> string \<Rightarrow> control option \<Rightarrow> validator \<Rightarrow> dom \<Rightarrow> validator \<times> dom" where
  "Validator_require targetControl nm indicatorControl V d =
     (let V1 = Validator_addTarget d targetControl nm indicatorControl V;
          k = control_key targetControl;
          (V2, d2) = on_target k (Target_addValidation targetControl [''keyup''] Validator_Required) V1 d;
          (V3, d3) = on_target k (Target_addValidation targetControl [''change''] Validator_Required) V2 d2
      in fire targetControl ''change'' V3 d3)"

definition Validator_unRequire :: "control \<Rightarrow> validator \<Rightarrow> dom \<Rightarrow> validator \<times> dom" where
  "Validator_unRequire targetControl V d =
     Validator_removeControlFunction targetControl targetControl [''keyup'', ''change'']
       Validator_Required V d"

subsection \<open>Regular expressions\<close>

text \<open>
  The patterns of the rules are anchored at both ends and are only used through
  \<open>RegExp.prototype.test\<close>, so a pattern is a regular expression that the whole string has
  to match. A character class is a list of inclusive ranges. \<open>test\<close> decides the match with
  derivatives.
\<close>

datatype rexp =
  Zero
  | One
  | Cls "(char \<times> char) list"
  | Seq rexp rexp
  | Alt rexp rexp
  | Star rexp

definition in_class :: "char \<Rightarrow> (char \<times> char) list \<Rightarrow> bool" where
  "in_class c rs =
     list_ex (\<lambda>(lo, hi). (of_char lo :: nat) \<le> of_char c \<and> (of_char c :: nat) \<le> of_char hi) rs"

fun nullable :: "rexp \<Rightarrow> bool" where
  "nullable Zero = False"
| "nullable One = True"
| "nullable (Cls rs) = False"
| "nullable (Seq r s) = (nullable r \<and> nullable s)"
| "nullable (Alt r s) = (nullable r \<or> nullable s)"
| "nullable (Star r) = True"

fun deriv :: "char \<Rightarrow> rexp \<Rightarrow> rexp" where
  "deriv c Zero = Zero"
| "deriv c One = Zero"
| "deriv c (Cls rs) = (if in_class c rs then One else Zero)"
| "deriv c (Seq r s) =
     (if nullable r then Alt (Seq (deriv c r) s) (deriv c s) else Seq (deriv c r) s)"
| "deriv c (Alt r s) = Alt (deriv c r) (deriv c s)"
| "deriv c (Star r) = Seq (deriv c r) (Star r)"

definition test :: "rexp \<Rightarrow> string \<Rightarrow> bool" where
  "test r s = nullable (foldl (\<lambda>r c. deriv c r) r s)"

text \<open>The strings that a regular expression matches.\<close>

definition conc :: "string set \<Rightarrow> string set \<Rightarrow> string set" where
  "conc A B = {u @ v | u v. u \<in> A \<and> v \<in> B}"

inductive_set star :: "string set \<Rightarrow> string set" for A :: "string set" where
  star_empty: "[] \<in> star A"
| star_more: "u \<in> A \<Longrightarrow> v \<in> star A \<Longrightarrow> u @ v \<in> star A"

fun lang :: "rexp \<Rightarrow> string set" where
  "lang Zero = {}"
| "lang One = {[]}"
| "lang (Cls rs) = {[c] | c. in_class c rs}"
| "lang (Seq r s) = conc (lang r) (lang s)"
| "lang (Alt r s) = lang r \<union> lang s"
| "lang (Star r) = star (lang r)"

definition Plus :: "rexp \<Rightarrow> rexp" where
  "Plus r = Seq r (Star r)"

definition Opt :: "rexp \<Rightarrow> rexp" where
  "Opt r = Alt One r"

definition Chr :: "char \<Rightarrow> rexp" where
  "Chr c = Cls [(c, c)]"

subsection \<open>The EMail rule\<close>

text \<open>
  The pattern of \<open>Validator_EMail\<close>:
  \<^verbatim>\<open>/^([_a-zA-Z0-9-]+)(\.[_a-zA-Z0-9-]+)*@([a-zA-Z0-9-]+)(\.[a-zA-Z0-9-]+)*(\.[a-zA-Z]{2,4})$/\<close>
\<close>

definition word_class :: rexp where
  "word_class = Cls [(CHR ''_'', CHR ''_''), (CHR ''a'', CHR ''z''), (CHR ''A'', CHR ''Z''),
     (CHR ''0'', CHR ''9''), (CHR ''-'', CHR ''-'')]"

definition host_class :: rexp where
  "host_class = Cls [(CHR ''a'', CHR ''z''), (CHR ''A'', CHR ''Z''), (CHR ''0'', CHR ''9''),
     (CHR ''-'', CHR ''-'')]"

definition alpha_class :: rexp where
  "alpha_class = Cls [(CHR ''a'', CHR ''z''), (CHR ''A'', CHR ''Z'')]"

definition patt :: rexp where
  "patt =
     Seq (Plus word_class)
      (Seq (Star (Seq (Chr (CHR ''.'')) (Plus word_class)))
        (Seq (Chr (CHR ''@''))
          (Seq (Plus host_class)
            (Seq (Star (Seq (Chr (CHR ''.'')) (Plus host_class)))
              (Seq (Chr (CHR ''.''))
                (Seq alpha_class (Seq alpha_class (Seq (Opt alpha_class) (Opt alpha_class)))))))))"

text \<open>\<open>String.prototype.split\<close> with a separator of one character.\<close>

fun split :: "char \<Rightarrow> string \<Rightarrow> string list" where
  "split c [] = [[]]"
| "split c (x # xs) =
     (if x = c then [] # split c xs
      else (case split c xs of [] \<Rightarrow> [[x]] | y # ys \<Rightarrow> (x # y) # ys))"

definition Validator_EMail :: ValidationFunction where
  "Validator_EMail =
     \<lparr>vf_name = ''Validator_EMail'',
      vf_method = (\<lambda>d c nm.
        let email = val d c
        in if CHR '';'' \<in> set email
           then concat (map (\<lambda>p. if \<not> test patt (trim p)
                                   then [Fail (trim p @ '' is not a valid email address.'')]
                                   else [])
                         (split (CHR '';'') email))
           else if \<not> isEmpty email
           then (if \<not> test patt (trim email)
                 then [Fail (trim email @ '' is not a valid email address.'')] else [])
           else [])\<rparr>"

subsection \<open>Numbers in strings\<close>

text \<open>
  \<open>parseInt\<close> without a radix: leading white space, an optional sign, then a hexadecimal
  number after \<open>0x\<close> or the longest run of decimal digits; \<open>NaN\<close> when there is no digit.
  The result is an exact integer: the rounding of JavaScript's numbers above \<open>2^53\<close> is not
  modelled. \<open>parseInt(undefined)\<close> converts \<open>undefined\<close> to the string \<open>undefined\<close> first.
\<close>

definition is_digit :: "char \<Rightarrow> bool" where
  "is_digit c = ((of_char (CHR ''0'') :: nat) \<le> of_char c \<and> (of_char c :: nat) \<le> of_char (CHR ''9''))"

definition digit_val :: "char \<Rightarrow> nat" where
  "digit_val c = of_char c - of_char (CHR ''0'')"

definition is_hex :: "char \<Rightarrow> bool" where
  "is_hex c = (is_digit c \<or> in_class c [(CHR ''a'', CHR ''f''), (CHR ''A'', CHR ''F'')])"

definition hex_val :: "char \<Rightarrow> nat" where
  "hex_val c =
     (if is_digit c then digit_val c
      else if in_class c [(CHR ''a'', CHR ''f'')] then of_char c - of_char (CHR ''a'') + 10
      else of_char c - of_char (CHR ''A'') + 10)"

definition digits_value :: "string \<Rightarrow> nat" where
  "digits_value ds = foldl (\<lambda>n c. 10 * n + digit_val c) 0 ds"

definition hex_value :: "string \<Rightarrow> nat" where
  "hex_value ds = foldl (\<lambda>n c. 16 * n + hex_val c) 0 ds"

definition parse_unsigned :: "string \<Rightarrow> int \<Rightarrow> number" where
  "parse_unsigned u sign =
     (if take 2 u = ''0x'' \<or> take 2 u = ''0X''
      then (if takeWhile is_hex (drop 2 u) = [] then NaN
            else Num (sign * int (hex_value (takeWhile is_hex (drop 2 u)))))
      else if takeWhile is_digit u = [] then NaN
      else Num (sign * int (digits_value (takeWhile is_digit u))))"

definition parseInt :: "string \<Rightarrow> number" where
  "parseInt s =
     (case dropWhile is_space s of
        [] \<Rightarrow> NaN
      | c # u \<Rightarrow>
          if c = CHR ''-'' then parse_unsigned u (- 1)
          else if c = CHR ''+'' then parse_unsigned u 1
          else parse_unsigned (c # u) 1)"

definition parseInt_attr :: "string option \<Rightarrow> number" where
  "parseInt_attr a = (case a of None \<Rightarrow> parseInt ''undefined'' | Some s \<Rightarrow> parseInt s)"

text \<open>The string of a number, for the integers.\<close>

function string_of_nat :: "nat \<Rightarrow> string" where
  "string_of_nat n =
     (if n < 10 then [char_of (n + 48)]
      else string_of_nat (n div 10) @ [char_of (n mod 10 + 48)])"
  by pat_completeness auto
termination
  by (relation "measure (\<lambda>n. n)") auto

declare string_of_nat.simps [simp del]

fun string_of_number :: "number \<Rightarrow> string" where
  "string_of_number NaN = ''NaN''"
| "string_of_number (Num n) =
     (if n < 0 then CHR ''-'' # string_of_nat (nat (- n)) else string_of_nat (nat n))"

fun number_less :: "number \<Rightarrow> number \<Rightarrow> bool" where
  "number_less (Num a) (Num b) = (a < b)"
| "number_less _ _ = False"

fun number_add :: "number \<Rightarrow> number \<Rightarrow> number" where
  "number_add (Num a) (Num b) = Num (a + b)"
| "number_add _ _ = NaN"

subsection \<open>Dates\<close>

text \<open>
  The pattern \<^verbatim>\<open>/^(\d+)[-\/](\d+)[-\/](\d+)$/\<close> of \<open>isDate\<close>, and the three groups that
  \<open>String.prototype.match\<close> returns for it.
\<close>

definition digit_class :: rexp where
  "digit_class = Cls [(CHR ''0'', CHR ''9'')]"

definition sep_class :: rexp where
  "sep_class = Cls [(CHR ''-'', CHR ''-''), (CHR ''/'', CHR ''/'')]"

definition rx :: rexp where
  "rx = Seq (Plus digit_class) (Seq sep_class (Seq (Plus digit_class)
          (Seq sep_class (Plus digit_class))))"

definition is_sep :: "char \<Rightarrow> bool" where
  "is_sep c = (c = CHR ''-'' \<or> c = CHR ''/'')"

definition rx_match :: "string \<Rightarrow> (string \<times> string \<times> string) option" where
  "rx_match data =
     (case dropWhile is_digit data of
        [] \<Rightarrow> None
      | s1 # r1 \<Rightarrow>
          (case dropWhile is_digit r1 of
             [] \<Rightarrow> None
           | s2 # r2 \<Rightarrow>
               if takeWhile is_digit data \<noteq> [] \<and> is_sep s1
                  \<and> takeWhile is_digit r1 \<noteq> [] \<and> is_sep s2
                  \<and> r2 \<noteq> [] \<and> list_all is_digit r2
               then Some (takeWhile is_digit data, takeWhile is_digit r1, r2)
               else None))"

record parts =
  parts_m :: number
  parts_d :: number
  parts_y :: number
  parts_mdy :: string

definition normalizeDate :: "string \<Rightarrow> string option \<Rightarrow> parts option" where
  "normalizeDate data window =
     (let w = parseInt_attr window
      in case rx_match data of
           None \<Rightarrow> None
         | Some (f1, f2, f3) \<Rightarrow>
             let m = parseInt f1; d = parseInt f2; y0 = parseInt f3;
                 y = (if number_less y0 w then number_add y0 (Num 2000)
                      else if number_less y0 (Num 100) then number_add y0 (Num 1900)
                      else y0)
             in Some \<lparr>parts_m = m, parts_d = d, parts_y = y,
                  parts_mdy = string_of_number m @ ''/'' @ string_of_number d @ ''/''
                    @ string_of_number y\<rparr>)"

text \<open>
  \<open>new Date(string)\<close> belongs to the JavaScript engine. It is a parameter \<open>mkDate\<close> that
  gives the month (from 1), the day of the month and the full year of the date it builds,
  or \<open>None\<close> for an invalid date.
\<close>

definition isDate :: "(string \<Rightarrow> (int \<times> int \<times> int) option) \<Rightarrow> string \<Rightarrow> string option \<Rightarrow> bool" where
  "isDate mkDate data window =
     (if test rx data
      then (case normalizeDate data window of
              None \<Rightarrow> False
            | Some originalParts \<Rightarrow>
                (case mkDate (parts_mdy originalParts) of
                   None \<Rightarrow> False
                 | Some (m2, d2, y2) \<Rightarrow>
                     parts_m originalParts = Num m2 \<and> parts_d originalParts = Num d2
                     \<and> parts_y originalParts = Num y2))
      else False)"

text \<open>
  The format check of \<open>Validator_Date\<close>,
  \<^verbatim>\<open>/^([1-9]|0[1-9]|1[012])[-\/]([1-9]|0[1-9]|[12][0-9]|3[01])[-\/](\d\d|(19|20)\d\d$)/\<close>.
  The end anchor stands inside the last alternative only, so after a year of two digits
  any characters may follow.
\<close>

definition any_class :: rexp where
  "any_class = Cls [(CHR 0x00, CHR 0xFF)]"

definition month_rx :: rexp where
  "month_rx = Alt (Cls [(CHR ''1'', CHR ''9'')])
     (Alt (Seq (Chr (CHR ''0'')) (Cls [(CHR ''1'', CHR ''9'')]))
          (Seq (Chr (CHR ''1'')) (Cls [(CHR ''0'', CHR ''2'')])))"

definition day_rx :: rexp where
  "day_rx = Alt (Cls [(CHR ''1'', CHR ''9'')])
     (Alt (Seq (Chr (CHR ''0'')) (Cls [(CHR ''1'', CHR ''9'')]))
       (Alt (Seq (Cls [(CHR ''1'', CHR ''2'')]) digit_class)
            (Seq (Chr (CHR ''3'')) (Cls [(CHR ''0'', CHR ''1'')]))))"

definition year_rx :: rexp where
  "year_rx = Alt (Seq (Seq digit_class digit_class) (Star any_class))
     (Seq (Alt (Seq (Chr (CHR ''1'')) (Chr (CHR ''9''))) (Seq (Chr (CHR ''2'')) (Chr (CHR ''0''))))
          (Seq digit_class digit_class))"

definition format_rx :: rexp where
  "format_rx = Seq month_rx (Seq sep_class (Seq day_rx (Seq sep_class year_rx)))"

definition Validator_Date :: "(string \<Rightarrow> (int \<times> int \<times> int) option) \<Rightarrow> ValidationFunction" where
  "Validator_Date mkDate =
     \<lparr>vf_name = ''Validator_Date'',
      vf_method = (\<lambda>d c nm.
        let dt = val d c
        in if \<not> isEmpty dt
           then (if \<not> isDate mkDate dt (dateWindow d c)
                 then [Fail (nm @ '', '' @ dt @ '' is not a date.'')]
                 else if \<not> test format_rx dt
                 then [Fail (nm @ '' is not a validly formatted date. Use mm/dd/yyyy.'')]
                 else [])
           else [])\<rparr>"

text \<open>
  A date constructor for the examples, as the comment above \<open>isDate\<close> describes the engine:
  a day beyond the end of the month runs over into the following months, and a month
  beyond 12 into the following years.
\<close>

definition leap :: "int \<Rightarrow> bool" where
  "leap y = (y mod 4 = 0 \<and> (y mod 100 \<noteq> 0 \<or> y mod 400 = 0))"

definition days_in_month :: "int \<Rightarrow> int \<Rightarrow> int" where
  "days_in_month m y =
     (if m = 2 then (if leap y then 29 else 28)
      else if m = 4 \<or> m = 6 \<or> m = 9 \<or> m = 11 then 30 else 31)"

function roll_days :: "int \<Rightarrow> int \<Rightarrow> int \<Rightarrow> int \<times> int \<times> int" where
  "roll_days m d y =
     (if d > days_in_month m y
      then (if m = 12 then roll_days 1 (d - days_in_month m y) (y + 1)
            else roll_days (m + 1) (d - days_in_month m y) y)
      else (m, d, y))"
  by pat_completeness auto
termination
  by (relation "measure (\<lambda>(m, d, y). nat d)") (auto simp: days_in_month_def split: if_splits)

declare roll_days.simps [simp del]

definition lenientDate :: "string \<Rightarrow> (int \<times> int \<times> int) option" where
  "lenientDate s =
     (case rx_match s of
        None \<Rightarrow> None
      | Some (a, b, c) \<Rightarrow>
          let m = int (digits_value a); d = int (digits_value b); y = int (digits_value c)
          in if m < 1 \<or> d < 1 then None
             else Some (roll_days ((m - 1) mod 12 + 1) d (y + (m - 1) div 12)))"

section \<open>The calculator\<close>

subsection \<open>Values\<close>

text \<open>
  A JavaScript number is \<open>NaN\<close>, an infinity or a finite value. Finite values are exact
  rationals: the rounding of the results to double precision and the sign of zero are not
  modelled.
\<close>

datatype jsnum = NotANumber | Fin rat | PosInf | NegInf

datatype jsval = Undefined | Number jsnum | Str string

text \<open>
  The accumulator is only ever assigned the number 0 (\<open>clearAcc\<close>) or a string (the value
  of a button, or a concatenation).
\<close>

datatype accval = AccZero | AccStr string

fun of_acc :: "accval \<Rightarrow> jsval" where
  "of_acc AccZero = Number (Fin 0)"
| "of_acc (AccStr s) = Str s"

fun of_number :: "number \<Rightarrow> jsnum" where
  "of_number NaN = NotANumber"
| "of_number (Num n) = Fin (of_int n)"

text \<open>
  \<open>ToNumber\<close> and \<open>parseFloat\<close> on strings, for unsigned decimal literals
  (digits, with an optional point and fraction), which is what the buttons \<open>0\<close> to \<open>9\<close>
  and \<open>.\<close> can put together; any other string is taken to \<open>NaN\<close>. \<open>ToNumber\<close> reads
  the whole trimmed string and takes the empty string to 0; \<open>parseFloat\<close> reads the longest
  prefix that is a literal.
\<close>

definition decimal_value :: "string \<Rightarrow> string \<Rightarrow> rat" where
  "decimal_value ip fp = of_nat (digits_value ip) + of_nat (digits_value fp) / 10 ^ length fp"

definition parseFloat :: "string \<Rightarrow> jsnum" where
  "parseFloat s =
     (let t = dropWhile is_space s; ip = takeWhile is_digit t; r = dropWhile is_digit t;
          fp = (case r of [] \<Rightarrow> [] | c # r' \<Rightarrow> if c = CHR ''.'' then takeWhile is_digit r' else [])
      in if ip = [] \<and> fp = [] then NotANumber else Fin (decimal_value ip fp))"

definition ToNumber :: "string \<Rightarrow> jsnum" where
  "ToNumber s =
     (let t = trim s; ip = takeWhile is_digit t; r = dropWhile is_digit t
      in if t = [] then Fin 0
         else (case r of
                 [] \<Rightarrow> Fin (decimal_value ip [])
               | c # fp \<Rightarrow>
                   if c = CHR ''.'' \<and> list_all is_digit fp \<and> (ip \<noteq> [] \<or> fp \<noteq> [])
                   then Fin (decimal_value ip fp) else NotANumber))"

fun to_num :: "jsval \<Rightarrow> jsnum" where
  "to_num Undefined = NotANumber"
| "to_num (Number n) = n"
| "to_num (Str s) = ToNumber s"

text \<open>
  \<open>parseInt\<close> of a value converts it to a string first. For a finite number that string is
  in decimal notation between \<open>10^-6\<close> and \<open>10^21\<close>, where \<open>parseInt\<close> gives the integer part;
  the exponent notation outside this range is not modelled.
\<close>

definition truncate :: "rat \<Rightarrow> int" where
  "truncate q = (if q < 0 then - \<lfloor>- q\<rfloor> else \<lfloor>q\<rfloor>)"

fun parseInt_val :: "jsval \<Rightarrow> number" where
  "parseInt_val Undefined = parseInt ''undefined''"
| "parseInt_val (Str s) = parseInt s"
| "parseInt_val (Number (Fin q)) = Num (truncate q)"
| "parseInt_val (Number _) = NaN"

fun parseFloat_val :: "jsval \<Rightarrow> jsnum" where
  "parseFloat_val Undefined = NotANumber"
| "parseFloat_val (Str s) = parseFloat s"
| "parseFloat_val (Number n) = n"

fun js_neg :: "jsnum \<Rightarrow> jsnum" where
  "js_neg NotANumber = NotANumber"
| "js_neg (Fin a) = Fin (- a)"
| "js_neg PosInf = NegInf"
| "js_neg NegInf = PosInf"

fun js_times :: "jsnum \<Rightarrow> jsnum \<Rightarrow> jsnum" where
  "js_times (Fin a) (Fin b) = Fin (a * b)"
| "js_times NotANumber _ = NotANumber"
| "js_times _ NotANumber = NotANumber"
| "js_times (Fin a) PosInf = (if a = 0 then NotANumber else if a < 0 then NegInf else PosInf)"
| "js_times (Fin a) NegInf = (if a = 0 then NotANumber else if a < 0 then PosInf else NegInf)"
| "js_times PosInf (Fin b) = (if b = 0 then NotANumber else if b < 0 then NegInf else PosInf)"
| "js_times NegInf (Fin b) = (if b = 0 then NotANumber else if b < 0 then PosInf else NegInf)"
| "js_times PosInf PosInf = PosInf"
| "js_times NegInf NegInf = PosInf"
| "js_times PosInf NegInf = NegInf"
| "js_times NegInf PosInf = NegInf"

fun js_divide :: "jsnum \<Rightarrow> jsnum \<Rightarrow> jsnum" where
  "js_divide (Fin a) (Fin b) =
     (if b = 0 then (if a = 0 then NotANumber else if a < 0 then NegInf else PosInf)
      else Fin (a / b))"
| "js_divide NotANumber _ = NotANumber"
| "js_divide _ NotANumber = NotANumber"
| "js_divide (Fin a) _ = Fin 0"
| "js_divide PosInf (Fin b) = (if b < 0 then NegInf else PosInf)"
| "js_divide NegInf (Fin b) = (if b < 0 then PosInf else NegInf)"
| "js_divide _ _ = NotANumber"

fun js_minus :: "jsnum \<Rightarrow> jsnum \<Rightarrow> jsnum" where
  "js_minus (Fin a) (Fin b) = Fin (a - b)"
| "js_minus NotANumber _ = NotANumber"
| "js_minus _ NotANumber = NotANumber"
| "js_minus (Fin a) b = js_neg b"
| "js_minus a (Fin b) = a"
| "js_minus PosInf NegInf = PosInf"
| "js_minus NegInf PosInf = NegInf"
| "js_minus _ _ = NotANumber"

subsection \<open>State and handlers\<close>

record calculator =
  acc :: accval
  reg :: jsval
  op :: string
  err :: bool
  decimal :: bool
  display :: jsval

definition clearAcc :: "calculator \<Rightarrow> calculator" where
  "clearAcc s = s\<lparr>acc := AccZero, decimal := False\<rparr>"

definition clear :: "calculator \<Rightarrow> calculator" where
  "clear s = (let s1 = clearAcc (s\<lparr>op := [], err := False\<rparr>) in s1\<lparr>display := of_acc (acc s1)\<rparr>)"

text \<open>The state when the page has loaded: every variable is undefined until \<open>clear\<close> runs.\<close>

definition init :: calculator where
  "init = clear \<lparr>acc = AccZero, reg = Undefined, op = [], err = False, decimal = False,
     display = Undefined\<rparr>"

definition equals_zero :: "jsval \<Rightarrow> bool" where
  "equals_zero v = (v \<noteq> Undefined \<and> to_num v = Fin 0)"

fun append_acc :: "accval \<Rightarrow> string \<Rightarrow> accval" where
  "append_acc AccZero num = AccStr (''0'' @ num)"
| "append_acc (AccStr a) num = AccStr (a @ num)"

definition numberClick :: "string \<Rightarrow> calculator \<Rightarrow> calculator" where
  "numberClick num s =
     (let s1 = (if err s then clear s else s)
      in if num = ''.'' \<and> decimal s1 then s1
         else
           let s2 = (if num = ''.'' then s1\<lparr>decimal := True\<rparr> else s1)
           in if equals_zero (of_acc (acc s2))
              then (if equals_zero (Str num) then s2
                    else
                      let s3 = (if num \<noteq> ''.'' then s2\<lparr>acc := AccStr num\<rparr> else s2);
                          num' = (if num \<noteq> ''.'' then [] else num);
                          s4 = s3\<lparr>acc := append_acc (acc s3) num'\<rparr>
                      in s4\<lparr>display := of_acc (acc s4)\<rparr>)
              else
                let s4 = s2\<lparr>acc := append_acc (acc s2) num\<rparr>
                in s4\<lparr>display := of_acc (acc s4)\<rparr>)"

definition calc :: "calculator \<Rightarrow> calculator" where
  "calc s =
     (let s1 =
        (if op s = ''*'' then s\<lparr>reg := Number (js_times (to_num (reg s)) (to_num (of_acc (acc s))))\<rparr>
         else if op s = ''/''
         then (if parseFloat_val (of_acc (acc s)) = Fin 0
               then s\<lparr>reg := Str ''Divide by zero.'', err := True\<rparr>
               else s\<lparr>reg := Number (js_divide (to_num (reg s)) (to_num (of_acc (acc s))))\<rparr>)
         else if op s = ''+''
         then s\<lparr>reg := Number (of_number
                 (number_add (parseInt_val (reg s)) (parseInt_val (of_acc (acc s)))))\<rparr>
         else if op s = ''-''
         then s\<lparr>reg := Number (js_minus (to_num (reg s)) (to_num (of_acc (acc s))))\<rparr>
         else s\<lparr>reg := of_acc (acc s)\<rparr>)
      in s1\<lparr>display := reg s1\<rparr>)"

definition opClick :: "string \<Rightarrow> calculator \<Rightarrow> calculator" where
  "opClick v s =
     (if v = ''C'' then clear s
      else if v = ''='' then calc s
      else clearAcc (s\<lparr>op := v, reg := of_acc (acc s)\<rparr>))"

datatype button = NumberButton string | OpButton string

fun click :: "calculator \<Rightarrow> button \<Rightarrow> calculator" where
  "click s (NumberButton num) = numberClick num s"
| "click s (OpButton v) = opClick v s"

definition run :: "button list \<Rightarrow> calculator" where
  "run bs = foldl click init bs"

section \<open>Example data\<close>

definition ex_control :: control where
  "ex_control = \<lparr>ctl_id = ''city'', ctl_name = ''city'', tagName = ''INPUT''\<rparr>"

definition ex_dom :: "string \<Rightarrow> dom" where
  "ex_dom v =
     \<lparr>val = (\<lambda>c. v), selectedText = (\<lambda>c. []), disabledAncestor = (\<lambda>c. False),
      dateWindow = (\<lambda>c. None),
      labelHtml = (\<lambda>c. ''City:''), helpId = (\<lambda>c. ctl_id c @ ''-autohelpblock''),
      helpBlocks = [], handlers = [], submitDisabled = False, popup = None, postCalls = []\<rparr>"

definition ex_validator :: "flags \<Rightarrow> validator" where
  "ex_validator sb =
     \<lparr>targets = [], validationBehavior = ValidateEnum_ICON, submitBehavior = sb,
      postValidation = True\<rparr>"

definition ex_hint :: ValidationFunction where
  "ex_hint = \<lparr>vf_name = ''Validator_Hint'',
     vf_method = (\<lambda>d c nm. [Warn (nm @ '' looks unusual.'')])\<rparr>"

definition ex_warn_page :: "validator \<times> dom" where
  "ex_warn_page =
     on_target (control_key ex_control) (Target_addValidation ex_control [''change''] ex_hint)
       (Validator_addTarget (ex_dom ''Atlantis'') ex_control [] None
          (ex_validator SubmitEnum_SUMMARY))
       (ex_dom ''Atlantis'')"

definition ex_page :: "string \<Rightarrow> flags \<Rightarrow> validator \<times> dom" where
  "ex_page v sb = Validator_require ex_control [] None (ex_validator sb) (ex_dom v)"

definition ex_event :: event where
  "ex_event = \<lparr>propagationStopped = False, defaultPrevented = False\<rparr>"

definition ex_target :: "string \<Rightarrow> flags \<Rightarrow> target" where
  "ex_target k st =
     \<lparr>key = k, control = ex_control\<lparr>ctl_id := k\<rparr>, name = k, state = st, messages = [],
      validations = []\<rparr>"

definition ex_reg0 :: "validator \<times> dom" where
  "ex_reg0 = (Validator_addTarget (ex_dom []) ex_control [] None (ex_validator 0), ex_dom [])"

definition ex_reg1 :: "validator \<times> dom" where
  "ex_reg1 = on_target (control_key ex_control)
     (Target_addValidation ex_control [''keyup''] Validator_Required) (fst ex_reg0) (snd ex_reg0)"

definition ex_reg2 :: "validator \<times> dom" where
  "ex_reg2 = on_target (control_key ex_control)
     (Target_addValidation ex_control [''keyup''] Validator_Required) (fst ex_reg1) (snd ex_reg1)"

definition ex_reg3 :: "validator \<times> dom" where
  "ex_reg3 = Validator_removeControlFunction ex_control ex_control [''keyup'']
     Validator_Required (fst ex_reg2) (snd ex_reg2)"

definition ex_reg4 :: "validator \<times> dom" where
  "ex_reg4 = Validator_removeControlFunction ex_control ex_control [''keyup'']
     Validator_Required (fst ex_reg3) (snd ex_reg3)"

definition ex_email_page :: "string \<Rightarrow> validator \<times> dom" where
  "ex_email_page v =
     on_target (control_key ex_control)
       (Target_addValidation ex_control [''keyup'', ''change''] Validator_EMail)
       (Validator_addTarget (ex_dom v) ex_control [] None (ex_validator 0)) (ex_dom v)"

definition status_of :: "validator \<times> dom \<Rightarrow> (flags \<times> string list) list" where
  "status_of p = map (\<lambda>(k, t). (state t, messages t)) (targets (fst p))"

section \<open>Properties of the form validator\<close>

lemmas ex_defs = Validator_require_def ex_control_def ex_validator_def ex_dom_def ex_page_def
  ex_event_def ex_target_def
  Validator_addTarget_def ValidationTarget_def control_key_def on_target_def
  Target_addValidation_def add_event_def fire_def Target_validate_def Target_validateAll_def
  Target_clear_def Target_setValidationResults_def set_help_def find_help_def
  Validator_Required_def run_method_def Target_fail_def Target_warn_def Target_addMessage_def
  Validator_post_def Validator_state_def Validator_validateAll_def Validator_isValid_def
  Validator_displayAllErrors_def Validator_displayInPopup_def localMessage_def replace_all_def
  isEmpty_def trim_def is_space_def Target_fullMessage_def
  StateEnum_PASS_def StateEnum_WARN_def StateEnum_FAIL_def
  SubmitEnum_DISABLE_def SubmitEnum_SUMMARY_def SubmitEnum_HELP_def
  ValidateEnum_ICON_def ValidateEnum_HELP_def

lemma bit_foldl_OR:
  "bit (foldl (\<lambda>s (k, t). s OR state t) s0 ts) n
     \<longleftrightarrow> bit s0 n \<or> (\<exists>t \<in> snd ` set ts. bit (state t) n)"
  by (induction ts arbitrary: s0) (auto simp: bit_or_iff)

lemma bit_Validator_state:
  "bit (Validator_state V) n \<longleftrightarrow> (\<exists>t \<in> snd ` set (targets V). bit (state t) n)"
  by (simp add: Validator_state_def bit_foldl_OR StateEnum_PASS_def)

lemma Validator_state_append:
  "Validator_state (V\<lparr>targets := targets V @ [(k, t)]\<rparr>) = Validator_state V OR state t"
  by (simp add: Validator_state_def)

lemma FAIL_bit_OR:
  "(a :: flags) AND StateEnum_FAIL = StateEnum_FAIL
     \<Longrightarrow> (a OR b) AND StateEnum_FAIL = StateEnum_FAIL"
  by (metis bit.conj_disj_distrib2 word_ao_absorbs(2) word_bw_comms(2))

text \<open>
  Claim C2. The cumulative status of a validator is the bitwise OR of the statuses of its
  targets: a bit is set in it exactly when some target has that bit set, and a further
  target contributes its status by OR. So a cumulative status that has the FAIL bit keeps
  it when a target is added, whatever the status of the new target is (in particular
  when the new target never fails), and \<open>addTarget\<close> itself leaves the cumulative status
  as it is.
\<close>

theorem cumulativeStatus_is_OR:
  "(bit (Validator_state V) n \<longleftrightarrow> (\<exists>t \<in> snd ` set (targets V). bit (state t) n))
   \<and> Validator_state (V\<lparr>targets := targets V @ [(k, t)]\<rparr>) = Validator_state V OR state t
   \<and> (Validator_state V AND StateEnum_FAIL = StateEnum_FAIL \<longrightarrow>
        Validator_state (V\<lparr>targets := targets V @ [(k, t)]\<rparr>) AND StateEnum_FAIL
          = StateEnum_FAIL)
   \<and> Validator_state (Validator_addTarget d c nm ind V) = Validator_state V"
proof -
  have "Validator_state (Validator_addTarget d c nm ind V) = Validator_state V"
    by (simp add: Validator_addTarget_def Let_def Validator_state_append
        ValidationTarget_def StateEnum_PASS_def)
  then show ?thesis
    by (simp add: bit_Validator_state Validator_state_append FAIL_bit_OR)
qed

theorem cumulativeStatus_is_OR_witness:
  "Validator_state (ex_validator 0\<lparr>targets := [(''a'', ex_target ''a'' StateEnum_FAIL)]\<rparr>)
       AND StateEnum_FAIL = StateEnum_FAIL
   \<and> (\<exists>t \<in> snd ` set (targets (ex_validator 0\<lparr>targets := [(''a'', ex_target ''a'' StateEnum_FAIL)]\<rparr>)).
         bit (state t) 1)
   \<and> Validator_state (ex_validator 0\<lparr>targets :=
         [(''a'', ex_target ''a'' StateEnum_FAIL), (''b'', ex_target ''b'' StateEnum_WARN)]\<rparr>)
       AND StateEnum_FAIL = StateEnum_FAIL"
  using cumulativeStatus_is_OR
    [of "ex_validator 0\<lparr>targets := [(''a'', ex_target ''a'' StateEnum_FAIL)]\<rparr>" 1
        "''b''" "ex_target ''b'' StateEnum_WARN" "ex_dom []" ex_control "[]" None]
  by (simp add: ex_defs)

lemma setValidationResults_fields:
  "postCalls (Target_setValidationResults V s t d) = postCalls d"
  "submitDisabled (Target_setValidationResults V s t d) = submitDisabled d"
  "popup (Target_setValidationResults V s t d) = popup d"
  "handlers (Target_setValidationResults V s t d) = handlers d"
  "val (Target_setValidationResults V s t d) = val d"
  "selectedText (Target_setValidationResults V s t d) = selectedText d"
  "disabledAncestor (Target_setValidationResults V s t d) = disabledAncestor d"
  "helpId (Target_setValidationResults V s t d) = helpId d"
  "labelHtml (Target_setValidationResults V s t d) = labelHtml d"
  by (simp_all add: Target_setValidationResults_def Let_def set_help_def find_help_def)

lemma Target_validateAll_fields:
  "postCalls (snd (Target_validateAll V s t d)) = postCalls d"
  "submitDisabled (snd (Target_validateAll V s t d)) = submitDisabled d"
  "popup (snd (Target_validateAll V s t d)) = popup d"
  "handlers (snd (Target_validateAll V s t d)) = handlers d"
  "val (snd (Target_validateAll V s t d)) = val d"
  "selectedText (snd (Target_validateAll V s t d)) = selectedText d"
  "disabledAncestor (snd (Target_validateAll V s t d)) = disabledAncestor d"
  "helpId (snd (Target_validateAll V s t d)) = helpId d"
  "labelHtml (snd (Target_validateAll V s t d)) = labelHtml d"
  by (simp_all add: Target_validateAll_def Target_clear_def Let_def setValidationResults_fields)

lemma validate_targets_fields:
  "postCalls (snd (validate_targets V s ts d)) = postCalls d
   \<and> submitDisabled (snd (validate_targets V s ts d)) = submitDisabled d
   \<and> popup (snd (validate_targets V s ts d)) = popup d
   \<and> handlers (snd (validate_targets V s ts d)) = handlers d
   \<and> val (snd (validate_targets V s ts d)) = val d
   \<and> selectedText (snd (validate_targets V s ts d)) = selectedText d
   \<and> disabledAncestor (snd (validate_targets V s ts d)) = disabledAncestor d
   \<and> helpId (snd (validate_targets V s ts d)) = helpId d
   \<and> labelHtml (snd (validate_targets V s ts d)) = labelHtml d"
proof (induction ts arbitrary: d)
  case Nil
  show ?case by simp
next
  case (Cons a ts)
  show ?case
    by (cases a) (simp add: split_beta Let_def Cons.IH Target_validateAll_fields)
qed

lemma validate_targets_keys:
  "map fst (fst (validate_targets V s ts d)) = map fst ts"
proof (induction ts arbitrary: d)
  case Nil
  show ?case by simp
next
  case (Cons a ts)
  show ?case
    by (cases a) (simp add: split_beta Let_def Cons.IH)
qed

lemma FAIL_bit_iff: "(x :: flags) AND StateEnum_FAIL = StateEnum_FAIL \<longleftrightarrow> bit x 1"
proof
  assume "x AND StateEnum_FAIL = StateEnum_FAIL"
  then have "bit (x AND 2) 1 = bit (2 :: flags) 1" by (simp add: StateEnum_FAIL_def)
  then show "bit x 1" by (simp add: bit_and_iff bit_2_iff)
next
  assume "bit x 1"
  then show "x AND StateEnum_FAIL = StateEnum_FAIL"
    unfolding StateEnum_FAIL_def
    by (intro bit_eqI) (auto simp: bit_and_iff bit_2_iff)
qed

lemma FAIL_bit_iff0: "(x :: flags) AND StateEnum_FAIL \<noteq> 0 \<longleftrightarrow> bit x 1"
proof
  assume "x AND StateEnum_FAIL \<noteq> 0"
  then have "\<exists>n. bit (x AND 2) n" unfolding StateEnum_FAIL_def
    by (metis bit_eqI bit_0_eq bot_apply bot_bool_def) 
  then show "bit x 1" by (auto simp add: bit_and_iff bit_2_iff)
next
  assume "bit x 1"
  then have "bit (x AND StateEnum_FAIL) 1"
    by (simp add: StateEnum_FAIL_def bit_and_iff bit_2_iff)
  then show "x AND StateEnum_FAIL \<noteq> 0" by auto
qed

lemma Validator_state_FAIL:
  "Validator_state V AND StateEnum_FAIL = StateEnum_FAIL
     \<longleftrightarrow> (\<exists>t \<in> snd ` set (targets V). state t AND StateEnum_FAIL = StateEnum_FAIL)"
  by (simp add: FAIL_bit_iff bit_Validator_state)

lemma addMessage_fields [simp]:
  "state (Target_addMessage m t) = state t"
  "control (Target_addMessage m t) = control t"
  "name (Target_addMessage m t) = name t"
  "validations (Target_addMessage m t) = validations t"
  "key (Target_addMessage m t) = key t"
  by (simp_all add: Target_addMessage_def)

lemma apply_outcome_fields [simp]:
  "control (apply_outcome t x) = control t"
  "name (apply_outcome t x) = name t"
  "validations (apply_outcome t x) = validations t"
  "key (apply_outcome t x) = key t"
  by (cases x; simp add: Target_fail_def Target_warn_def)+

lemma apply_outcome_FAIL:
  "bit (state (apply_outcome t x)) (Suc 0) \<longleftrightarrow> bit (state t) (Suc 0) \<or> (\<exists>m. x = Fail m)"
  by (cases x)
     (simp_all add: Target_fail_def Target_warn_def bit_or_iff StateEnum_FAIL_def
       StateEnum_WARN_def bit_2_iff bit_1_iff)

lemma foldl_apply_outcome_fields [simp]:
  "control (foldl apply_outcome t xs) = control t"
  "name (foldl apply_outcome t xs) = name t"
  "validations (foldl apply_outcome t xs) = validations t"
  "key (foldl apply_outcome t xs) = key t"
  by (induction xs arbitrary: t; simp)+

lemma foldl_apply_outcome_FAIL:
  "bit (state (foldl apply_outcome t xs)) (Suc 0) \<longleftrightarrow> bit (state t) (Suc 0) \<or> (\<exists>m. Fail m \<in> set xs)"
  by (induction xs arbitrary: t) (auto simp: apply_outcome_FAIL)

lemma run_method_fields [simp]:
  "control (run_method d t v) = control t"
  "name (run_method d t v) = name t"
  "validations (run_method d t v) = validations t"
  "key (run_method d t v) = key t"
  by (simp_all add: run_method_def)

lemma run_method_FAIL:
  "bit (state (run_method d t v)) (Suc 0) \<longleftrightarrow>
     bit (state t) (Suc 0) \<or> (\<not> lock v \<and> (\<exists>m. Fail m \<in> set (method_fn v d (control t) (name t))))"
  by (simp add: run_method_def foldl_apply_outcome_FAIL)

lemma foldl_run_method_fields [simp]:
  "control (foldl (run_method d) t vs) = control t"
  "name (foldl (run_method d) t vs) = name t"
  "validations (foldl (run_method d) t vs) = validations t"
  "key (foldl (run_method d) t vs) = key t"
  by (induction vs arbitrary: t; simp)+

lemma foldl_run_method_FAIL:
  "bit (state (foldl (run_method d) t vs)) (Suc 0) \<longleftrightarrow>
     bit (state t) (Suc 0)
     \<or> (\<exists>v \<in> set vs. \<not> lock v \<and> (\<exists>m. Fail m \<in> set (method_fn v d (control t) (name t))))"
  by (induction vs arbitrary: t) (auto simp: run_method_FAIL)

lemma Target_validateAll_FAIL:
  "state (fst (Target_validateAll V s t d)) AND StateEnum_FAIL = StateEnum_FAIL \<longleftrightarrow>
     \<not> disabledAncestor d (control t)
     \<and> (\<exists>v \<in> snd ` set (validations t). \<not> lock v
           \<and> (\<exists>m. Fail m \<in> set (method_fn v (snd (Target_clear V t d)) (control t) (name t))))"
  by (simp add: FAIL_bit_iff [simplified] Target_validateAll_def Target_clear_def Let_def
      setValidationResults_fields foldl_run_method_FAIL StateEnum_PASS_def)

lemma Target_validateAll_target_fields [simp]:
  "key (fst (Target_validateAll V s t d)) = key t"
  "control (fst (Target_validateAll V s t d)) = control t"
  "name (fst (Target_validateAll V s t d)) = name t"
  "map fst (validations (fst (Target_validateAll V s t d))) = map fst (validations t)"
  "map (refCount \<circ> snd) (validations (fst (Target_validateAll V s t d)))
     = map (refCount \<circ> snd) (validations t)"
  by (simp_all add: Target_validateAll_def Target_clear_def Let_def comp_def split_beta)
lemma Validator_validateAll_unfold:
  "Validator_validateAll submitting V d =
     (V\<lparr>targets := fst (validate_targets V submitting (targets V) d)\<rparr>,
      Validator_post (V\<lparr>targets := fst (validate_targets V submitting (targets V) d)\<rparr>)
        (snd (validate_targets V submitting (targets V) d)))"
  by (simp add: Validator_validateAll_def split_beta Let_def)

text \<open>
  Claim C8. A full-scope pass calls a registered post-validation callback exactly once, after
  all targets have been validated, and the argument is true exactly when no target has the
  FAIL bit in its status after the pass. A target whose status is only WARN has not failed
  and does not make the argument false. Without a registered callback nothing is called.
\<close>

theorem postHook_all_passed:
  "postCalls (snd (Validator_validateAll submitting V d)) =
     (if postValidation V
      then postCalls d @
        [\<forall>t \<in> snd ` set (targets (fst (Validator_validateAll submitting V d))).
           state t AND StateEnum_FAIL \<noteq> StateEnum_FAIL]
      else postCalls d)"
  by (simp add: Validator_validateAll_unfold Validator_post_def Let_def
      validate_targets_fields Validator_state_FAIL)

theorem postHook_all_passed_witness:
  "postValidation (fst (ex_page [] SubmitEnum_SUMMARY))
   \<and> postCalls (snd (Validator_validateAll False (fst (ex_page [] SubmitEnum_SUMMARY))
         (snd (ex_page [] SubmitEnum_SUMMARY))))
       = postCalls (snd (ex_page [] SubmitEnum_SUMMARY)) @ [False]
   \<and> postCalls (snd (Validator_validateAll False (fst (ex_page ''Paris'' SubmitEnum_SUMMARY))
         (snd (ex_page ''Paris'' SubmitEnum_SUMMARY))))
       = postCalls (snd (ex_page ''Paris'' SubmitEnum_SUMMARY)) @ [True]
   \<and> Validator_state (fst (Validator_validateAll False (fst ex_warn_page) (snd ex_warn_page)))
       = StateEnum_WARN
   \<and> postCalls (snd (Validator_validateAll False (fst ex_warn_page) (snd ex_warn_page)))
       = postCalls (snd ex_warn_page) @ [True]"
proof -
  have e: "postValidation (fst (ex_page [] SubmitEnum_SUMMARY)) = True"
    "postValidation (fst (ex_page ''Paris'' SubmitEnum_SUMMARY)) = True"
    "postValidation (fst ex_warn_page) = True"
    "(\<forall>t \<in> snd ` set (targets (fst (Validator_validateAll False
          (fst (ex_page [] SubmitEnum_SUMMARY)) (snd (ex_page [] SubmitEnum_SUMMARY))))).
        state t AND StateEnum_FAIL \<noteq> StateEnum_FAIL) = False"
    "(\<forall>t \<in> snd ` set (targets (fst (Validator_validateAll False
          (fst (ex_page ''Paris'' SubmitEnum_SUMMARY)) (snd (ex_page ''Paris'' SubmitEnum_SUMMARY))))).
        state t AND StateEnum_FAIL \<noteq> StateEnum_FAIL) = True"
    "(\<forall>t \<in> snd ` set (targets (fst (Validator_validateAll False
          (fst ex_warn_page) (snd ex_warn_page)))).
        state t AND StateEnum_FAIL \<noteq> StateEnum_FAIL) = True"
    "(Validator_state (fst (Validator_validateAll False (fst ex_warn_page) (snd ex_warn_page)))
       = StateEnum_WARN) = True"
    by code_simp+
  show ?thesis
    using postHook_all_passed [of False "fst (ex_page [] SubmitEnum_SUMMARY)"
      "snd (ex_page [] SubmitEnum_SUMMARY)"]
    postHook_all_passed [of False "fst (ex_page ''Paris'' SubmitEnum_SUMMARY)"
      "snd (ex_page ''Paris'' SubmitEnum_SUMMARY)"]
    postHook_all_passed [of False "fst ex_warn_page" "snd ex_warn_page"]
    by (simp only: e if_True simp_thms)
qed

lemma displayAll_foldl:
  "foldl (\<lambda>m (i, b). if \<not> isEmpty (localMessage (html b))
                          then m @ ''<li>'' @ localMessage (html b) @ ''</li>'' else m) m0 hs
   = m0 @ concat (map (\<lambda>h. ''<li>'' @ localMessage h @ ''</li>'')
        (filter (\<lambda>h. \<not> isEmpty (localMessage h)) (map (html \<circ> snd) hs)))"
  by (induction hs arbitrary: m0) (auto)

lemma popup_displayAllErrors:
  "popup (Validator_displayAllErrors d) =
     Some (''Validation Errors'',
       ''Please correct all validation errors on this page before submitting.<br><br><ul>''
       @ concat (map (\<lambda>h. ''<li>'' @ localMessage h @ ''</li>'')
           (filter (\<lambda>h. \<not> isEmpty (localMessage h)) (map (html \<circ> snd) (helpBlocks d))))
       @ ''</ul>'')"
  unfolding Validator_displayAllErrors_def Let_def Validator_displayInPopup_def displayAll_foldl
  by simp

text \<open>
  Claim C3. \<open>isValid\<close> first runs a full pass in submission mode. It returns false exactly
  when some target has the FAIL bit after that pass; then an event that was supplied has its
  propagation stopped and its default action prevented, and the popup shows the summary, one
  list item for each help block whose rendered message is not empty. When no target has the
  FAIL bit (a status of WARN only included) it returns true and leaves the event and the
  page as the pass left them.
\<close>

theorem isValid_blocks_on_FAIL:
  assumes "Validator_validateAll True V d = (V1, d1)"
    and "Validator_isValid ev V d = (V', d', ev', ok)"
  shows "V' = V1
    \<and> (ok \<longleftrightarrow> (\<forall>t \<in> snd ` set (targets V1). state t AND StateEnum_FAIL \<noteq> StateEnum_FAIL))
    \<and> (\<not> ok \<longrightarrow>
          ev' = map_option (\<lambda>e. e\<lparr>propagationStopped := True, defaultPrevented := True\<rparr>) ev
          \<and> popup d' =
              Some (''Validation Errors'',
                ''Please correct all validation errors on this page before submitting.<br><br><ul>''
                @ concat (map (\<lambda>h. ''<li>'' @ localMessage h @ ''</li>'')
                    (filter (\<lambda>h. \<not> isEmpty (localMessage h)) (map (html \<circ> snd) (helpBlocks d1))))
                @ ''</ul>'')
          \<and> helpBlocks d' = helpBlocks d1)
    \<and> (ok \<longrightarrow> ev' = ev \<and> d' = d1)"
proof -
  have F: "(Validator_state V1 AND StateEnum_FAIL \<noteq> 0)
        = (\<exists>t \<in> snd ` set (targets V1). state t AND StateEnum_FAIL = StateEnum_FAIL)"
    by (simp add: FAIL_bit_iff0 FAIL_bit_iff bit_Validator_state)
  show ?thesis
  proof (cases "Validator_state V1 AND StateEnum_FAIL \<noteq> 0")
    case True
    then have "Validator_isValid ev V d = (V1, Validator_displayAllErrors d1,
        map_option (\<lambda>e. e\<lparr>propagationStopped := True, defaultPrevented := True\<rparr>) ev, False)"
      using assms(1) by (simp add: Validator_isValid_def)
    with assms(2) have "V' = V1" "d' = Validator_displayAllErrors d1" "\<not> ok"
      "ev' = map_option (\<lambda>e. e\<lparr>propagationStopped := True, defaultPrevented := True\<rparr>) ev"
      by simp_all
    moreover have "helpBlocks (Validator_displayAllErrors d1) = helpBlocks d1"
      by (simp add: Validator_displayAllErrors_def Validator_displayInPopup_def Let_def)
    ultimately show ?thesis using True F
      by (simp add: popup_displayAllErrors)
  next
    case False
    then have "Validator_isValid ev V d = (V1, d1, ev, True)"
      using assms(1) by (simp add: Validator_isValid_def)
    with assms(2) have "V' = V1" "d' = d1" "ok" "ev' = ev"
      by simp_all
    then show ?thesis using False F by simp
  qed
qed


lemma quad_collapse: "p = (fst p, fst (snd p), fst (snd (snd p)), snd (snd (snd p)))"
  by simp

theorem isValid_blocks_on_FAIL_witness:
  "snd (snd (snd (Validator_isValid (Some ex_event) (fst (ex_page [] SubmitEnum_SUMMARY))
       (snd (ex_page [] SubmitEnum_SUMMARY))))) = False
   \<and> fst (snd (snd (Validator_isValid (Some ex_event) (fst (ex_page [] SubmitEnum_SUMMARY))
       (snd (ex_page [] SubmitEnum_SUMMARY)))))
       = map_option (\<lambda>e. e\<lparr>propagationStopped := True, defaultPrevented := True\<rparr>)
           (Some ex_event)
   \<and> popup (fst (snd (Validator_isValid (Some ex_event) (fst (ex_page [] SubmitEnum_SUMMARY))
       (snd (ex_page [] SubmitEnum_SUMMARY)))))
       = Some (''Validation Errors'',
           ''Please correct all validation errors on this page before submitting.<br><br><ul><li>Error: City is a required field.</li></ul>'')
   \<and> snd (snd (snd (Validator_isValid (Some ex_event) (fst (ex_page ''Paris'' SubmitEnum_SUMMARY))
       (snd (ex_page ''Paris'' SubmitEnum_SUMMARY))))) = True
   \<and> fst (snd (snd (Validator_isValid (Some ex_event) (fst (ex_page ''Paris'' SubmitEnum_SUMMARY))
       (snd (ex_page ''Paris'' SubmitEnum_SUMMARY))))) = Some ex_event
   \<and> status_of (Validator_validateAll True (fst ex_warn_page) (snd ex_warn_page))
       = [(StateEnum_WARN, [''Warning: City looks unusual.''])]
   \<and> snd (snd (snd (Validator_isValid (Some ex_event) (fst ex_warn_page) (snd ex_warn_page))))
       = True
   \<and> fst (snd (snd (Validator_isValid (Some ex_event) (fst ex_warn_page) (snd ex_warn_page))))
       = Some ex_event"
proof -
  have e: "snd (snd (snd (Validator_isValid (Some ex_event) (fst (ex_page [] SubmitEnum_SUMMARY))
       (snd (ex_page [] SubmitEnum_SUMMARY))))) = False"
    "snd (snd (snd (Validator_isValid (Some ex_event) (fst (ex_page ''Paris'' SubmitEnum_SUMMARY))
       (snd (ex_page ''Paris'' SubmitEnum_SUMMARY))))) = True"
    "snd (snd (snd (Validator_isValid (Some ex_event) (fst ex_warn_page) (snd ex_warn_page))))
       = True"
    by code_simp+
  have p: "popup (fst (snd (Validator_isValid (Some ex_event) (fst (ex_page [] SubmitEnum_SUMMARY))
       (snd (ex_page [] SubmitEnum_SUMMARY)))))
       = Some (''Validation Errors'',
           ''Please correct all validation errors on this page before submitting.<br><br><ul><li>Error: City is a required field.</li></ul>'')"
    "status_of (Validator_validateAll True (fst ex_warn_page) (snd ex_warn_page))
       = [(StateEnum_WARN, [''Warning: City looks unusual.''])]"
    by code_simp+
  have a1: "fst (snd (snd (Validator_isValid (Some ex_event) (fst (ex_page [] SubmitEnum_SUMMARY))
       (snd (ex_page [] SubmitEnum_SUMMARY)))))
       = map_option (\<lambda>e. e\<lparr>propagationStopped := True, defaultPrevented := True\<rparr>)
           (Some ex_event)"
    using isValid_blocks_on_FAIL
      [OF prod.collapse [symmetric] quad_collapse,
        where ev = "Some ex_event" and V = "fst (ex_page [] SubmitEnum_SUMMARY)"
          and d = "snd (ex_page [] SubmitEnum_SUMMARY)"] e(1)
    by blast
  have a2: "fst (snd (snd (Validator_isValid (Some ex_event)
       (fst (ex_page ''Paris'' SubmitEnum_SUMMARY)) (snd (ex_page ''Paris'' SubmitEnum_SUMMARY)))))
       = Some ex_event"
    using isValid_blocks_on_FAIL
      [OF prod.collapse [symmetric] quad_collapse,
        where ev = "Some ex_event" and V = "fst (ex_page ''Paris'' SubmitEnum_SUMMARY)"
          and d = "snd (ex_page ''Paris'' SubmitEnum_SUMMARY)"] e(2)
    by blast
  have a3: "fst (snd (snd (Validator_isValid (Some ex_event) (fst ex_warn_page)
       (snd ex_warn_page)))) = Some ex_event"
    using isValid_blocks_on_FAIL
      [OF prod.collapse [symmetric] quad_collapse,
        where ev = "Some ex_event" and V = "fst ex_warn_page" and d = "snd ex_warn_page"] e(3)
    by blast
  from e p a1 a2 a3 show ?thesis by (intro conjI)
qed

text \<open>
  Claim C1. The documentation of \<open>SubmitEnum.DISABLE\<close> says that the submit button is
  disabled when validation errors exist. \<open>post\<close> computes \<open>hasFailures\<close> with an inverted
  test, so with that behaviour configured a pass that leaves a target failing removes the
  class \<open>disabled\<close> from the submit button, and a pass in which every target passes adds
  it: here for one required field, first empty, then filled in.
\<close>

theorem submit_disable_inverted:
  "submitBehavior (fst (ex_page [] SubmitEnum_DISABLE)) = SubmitEnum_DISABLE
   \<and> Validator_state (fst (Validator_validateAll False (fst (ex_page [] SubmitEnum_DISABLE))
         (snd (ex_page [] SubmitEnum_DISABLE)))) AND StateEnum_FAIL = StateEnum_FAIL
   \<and> submitDisabled (snd (Validator_validateAll False (fst (ex_page [] SubmitEnum_DISABLE))
         (snd (ex_page [] SubmitEnum_DISABLE)))) = False
   \<and> Validator_state (fst (Validator_validateAll False (fst (ex_page ''Paris'' SubmitEnum_DISABLE))
         (snd (ex_page ''Paris'' SubmitEnum_DISABLE)))) = StateEnum_PASS
   \<and> submitDisabled (snd (Validator_validateAll False (fst (ex_page ''Paris'' SubmitEnum_DISABLE))
         (snd (ex_page ''Paris'' SubmitEnum_DISABLE)))) = True"
  by code_simp

lemma update_absent: "map_of al k = None \<Longrightarrow> AList.update k v al = al @ [(k, v)]"
  by (induction al) (auto split: if_splits)

lemma delete_absent: "map_of al k = None \<Longrightarrow> AList.delete k al = al"
  by (induction al) (auto split: if_splits)

lemma Target_validateAll_validations:
  "validations (fst (Target_validateAll V s t d))
     = (if disabledAncestor d (control t) then validations t
        else map (\<lambda>(n, v). (n, v\<lparr>lock := False\<rparr>)) (validations t))"
  by (simp add: Target_validateAll_def Target_clear_def Let_def setValidationResults_fields)

lemma map_of_unlock:
  "map_of (map (\<lambda>(n, v). (n, v\<lparr>lock := False\<rparr>)) vs) k
     = map_option (\<lambda>v. v\<lparr>lock := False\<rparr>) (map_of vs k)"
  by (induction vs) auto

lemma map_of_validations_validateAll:
  "map_option (\<lambda>v. (refCount v, method_fn v))
       (map_of (validations (fst (Target_validateAll V s t d))) n)
     = map_option (\<lambda>v. (refCount v, method_fn v)) (map_of (validations t) n)"
  by (simp add: Target_validateAll_validations map_of_unlock option.map_comp comp_def)

lemma validations_validateAll_Nil:
  "validations (fst (Target_validateAll V s t d)) = [] \<longleftrightarrow> validations t = []"
  by (simp add: Target_validateAll_validations)

lemma addValidation_first:
  assumes "map_of (validations t) (vf_name vf) = None"
  shows "Target_addValidation trig [e] vf t d =
     (t\<lparr>validations := validations t @
          [(vf_name vf, \<lparr>lock = False, refCount = [(control_key trig @ ''.'' @ e, Num 1)],
              method_fn = vf_method vf\<rparr>)]\<rparr>,
      d\<lparr>handlers := handlers d @ [(trig, e, key t)]\<rparr>)"
  using assms by (simp add: Target_addValidation_def add_event_def Let_def update_absent)

lemma addValidation_again:
  assumes "map_of (validations t) (vf_name vf) = Some v"
    and "map_of (refCount v) (control_key trig @ ''.'' @ e) = Some (Num c)"
  shows "Target_addValidation trig [e] vf t d =
     (t\<lparr>validations := AList.update (vf_name vf)
          (v\<lparr>refCount := AList.update (control_key trig @ ''.'' @ e) (Num (c + 1)) (refCount v)\<rparr>)
          (validations t)\<rparr>, d)"
  using assms by (simp add: Target_addValidation_def add_event_def Let_def)

lemma remove_rule_decrement:
  assumes "map_of (validations t) (vf_name vf) = Some v"
    and "map_of (refCount v) (control_key trig @ ''.'' @ e) = Some (Num c)" and "1 < c"
  shows "remove_rule trig [e] vf t d =
     (t\<lparr>validations := AList.update (vf_name vf)
          (v\<lparr>refCount := AList.update (control_key trig @ ''.'' @ e) (Num (c - 1)) (refCount v)\<rparr>)
          (validations t)\<rparr>, d)"
proof -
  have "AList.update (control_key trig @ ''.'' @ e) (Num (c - 1)) (refCount v) \<noteq> []"
    by (cases "refCount v") auto
  with assms show ?thesis
    by (simp add: remove_rule_def remove_event_def Let_def)
qed

lemma remove_rule_last:
  assumes "map_of (validations t) (vf_name vf) = Some v"
    and "refCount v = [(control_key trig @ ''.'' @ e, Num 1)]"
  shows "remove_rule trig [e] vf t d =
     (t\<lparr>validations := AList.delete (vf_name vf) (validations t)\<rparr>,
      d\<lparr>handlers := filter (\<lambda>(c, e', k). \<not> (c = trig \<and> e' = e)) (handlers d)\<rparr>)"
  using assms by (simp add: remove_rule_def remove_event_def Let_def)

lemma post_fields [simp]:
  "handlers (Validator_post V d) = handlers d"
  "helpBlocks (Validator_post V d) = helpBlocks d"
  by (simp_all add: Validator_post_def Let_def)

lemma Target_clear_handlers [simp]: "handlers (snd (Target_clear V t d)) = handlers d"
  by (simp add: Target_clear_def Let_def setValidationResults_fields)

lemma Target_validate_Some:
  assumes "map_of (targets V) k = Some t"
  shows "targets (fst (Target_validate k V d))
           = AList.update k (fst (Target_validateAll V False t d)) (targets V)"
    and "handlers (snd (Target_validate k V d)) = handlers d"
  using assms
  by (simp_all add: Target_validate_def split_beta Let_def Target_validateAll_fields)

lemma removeControlFunction_result:
  assumes "map_of (targets V) (control_key c) = Some t"
    and "remove_rule trig es vf t d = (t', d')"
  shows "map_of (targets (fst (Validator_removeControlFunction c trig es vf V d))) (control_key c)
      = (if validations t' = [] then None
         else Some (fst (Target_validateAll
                 (V\<lparr>targets := AList.update (control_key c) t' (targets V)\<rparr>) False t' d')))"
    and "handlers (snd (Validator_removeControlFunction c trig es vf V d)) = handlers d'"
proof -
  let ?k = "control_key c"
  let ?V = "V\<lparr>targets := AList.update ?k t' (targets V)\<rparr>"
  have l: "map_of (targets ?V) ?k = Some t'" by (simp add: update_conv')
  have R: "Target_removeValidation ?k trig es vf V d = Target_validate ?k ?V d'"
    using assms by (simp add: Target_removeValidation_def)
  have T: "map_of (targets (fst (Target_validate ?k ?V d'))) ?k
             = Some (fst (Target_validateAll ?V False t' d'))"
    by (simp add: Target_validate_Some [OF l] update_conv')
  show "map_of (targets (fst (Validator_removeControlFunction c trig es vf V d))) ?k
      = (if validations t' = [] then None
         else Some (fst (Target_validateAll ?V False t' d')))"
    using assms(1) R T
    by (simp add: Validator_removeControlFunction_def Let_def split_beta
        validations_validateAll_Nil delete_conv')
  show "handlers (snd (Validator_removeControlFunction c trig es vf V d)) = handlers d'"
    using assms(1) R T
    by (simp add: Validator_removeControlFunction_def Let_def split_beta
        Target_validate_Some [OF l])
qed

lemma on_target_Some:
  assumes "map_of (targets V) k = Some t"
  shows "on_target k f V d = (V\<lparr>targets := AList.update k (fst (f t d)) (targets V)\<rparr>, snd (f t d))"
  using assms by (simp add: on_target_def split_beta)

lemma update_last_entry:
  "map_of al k = None \<Longrightarrow> AList.update k v (al @ [(k, w)]) = al @ [(k, v)]"
  by (induction al) (auto split: if_splits)

lemma map_of_last_entry:
  "map_of al k = None \<Longrightarrow> map_of (al @ [(k, v)]) k = Some v"
  by (induction al) (auto split: if_splits)

lemma delete_last_entry:
  "map_of al k = None \<Longrightarrow> AList.delete k (al @ [(k, v)]) = al"
  by (induction al) (auto split: if_splits)

lemma delete_unlock:
  "AList.delete k (map (\<lambda>(n, v). (n, v\<lparr>lock := False\<rparr>)) vs)
     = map (\<lambda>(n, v). (n, v\<lparr>lock := False\<rparr>)) (AList.delete k vs)"
  by (induction vs) auto

lemma distinct_addValidation:
  "distinct (map fst (validations t))
     \<Longrightarrow> distinct (map fst (validations (fst (Target_addValidation trig es vf t d))))"
  by (simp add: Target_addValidation_def Let_def split_beta distinct_update)

lemma distinct_remove_rule:
  "distinct (map fst (validations t))
     \<Longrightarrow> distinct (map fst (validations (fst (remove_rule trig es vf t d))))"
  by (simp add: remove_rule_def Let_def split_beta distinct_update distinct_delete
      split: option.splits)

lemma rule_registration_steps:
  assumes tgt: "map_of (targets V) (control_key c) = Some t"
    and fresh: "map_of (validations t) (vf_name vf) = None"
    and add1: "on_target (control_key c) (Target_addValidation trig [e] vf) V d = (V1, d1)"
    and add2: "on_target (control_key c) (Target_addValidation trig [e] vf) V1 d1 = (V2, d2)"
    and rem1: "Validator_removeControlFunction c trig [e] vf V2 d2 = (V3, d3)"
    and rem2: "Validator_removeControlFunction c trig [e] vf V3 d3 = (V4, d4)"
  shows "\<exists>t2 v. map_of (targets V2) (control_key c) = Some t2
            \<and> map_of (validations t2) (vf_name vf) = Some v
            \<and> refCount v = [(control_key trig @ ''.'' @ e, Num 2)]
            \<and> length (filter (\<lambda>p. fst p = vf_name vf) (validations t2)) = 1
            \<and> (distinct (map fst (validations t)) \<longrightarrow> distinct (map fst (validations t2)))"
    and "\<exists>t3 v. map_of (targets V3) (control_key c) = Some t3
            \<and> map_of (validations t3) (vf_name vf) = Some v
            \<and> refCount v = [(control_key trig @ ''.'' @ e, Num 1)]
            \<and> method_fn v = vf_method vf
            \<and> (trig, e, key t) \<in> set (handlers d3)"
    and "validations t \<noteq> [] \<longrightarrow>
           (\<exists>t4. map_of (targets V4) (control_key c) = Some t4
              \<and> map_of (validations t4) (vf_name vf) = None)"
    and "validations t = [] \<longrightarrow> map_of (targets V4) (control_key c) = None"
    and "\<forall>k. (trig, e, k) \<notin> set (handlers d4)"
proof -
  let ?k = "control_key c" and ?n = "vf_name vf" and ?eid = "control_key trig @ ''.'' @ e"
  let ?v1 = "\<lparr>lock = False, refCount = [(?eid, Num 1)], method_fn = vf_method vf\<rparr>"
  let ?v2 = "\<lparr>lock = False, refCount = [(?eid, Num 2)], method_fn = vf_method vf\<rparr>"
  let ?t1 = "t\<lparr>validations := validations t @ [(?n, ?v1)]\<rparr>"
  let ?t2 = "t\<lparr>validations := validations t @ [(?n, ?v2)]\<rparr>"
  let ?t2' = "t\<lparr>validations := validations t @ [(?n, ?v1)]\<rparr>"
  let ?d1 = "d\<lparr>handlers := handlers d @ [(trig, e, key t)]\<rparr>"
  have s1: "V1 = V\<lparr>targets := AList.update ?k ?t1 (targets V)\<rparr>" "d1 = ?d1"
    using add1 by (simp_all add: on_target_Some [OF tgt] addValidation_first [OF fresh])
  have l1: "map_of (targets V1) ?k = Some ?t1" by (simp add: s1 update_conv')
  have v1: "map_of (validations ?t1) ?n = Some ?v1"
    by (simp add: map_add_def fresh)
  have a2: "Target_addValidation trig [e] vf ?t1 d1 = (?t2, d1)"
    using addValidation_again [OF v1, of trig e 1 d1]
    by (simp add: update_last_entry [OF fresh])
  have o2: "on_target ?k (Target_addValidation trig [e] vf) V1 d1
      = (V1\<lparr>targets := AList.update ?k ?t2 (targets V1)\<rparr>, d1)"
    by (simp only: on_target_Some [OF l1] a2 fst_conv snd_conv)
  have s2: "V2 = V1\<lparr>targets := AList.update ?k ?t2 (targets V1)\<rparr>" "d2 = ?d1"
    using add2 o2 s1(2) by simp_all
  have l2: "map_of (targets V2) ?k = Some ?t2" by (simp add: s2 update_conv')
  have v2: "map_of (validations ?t2) ?n = Some ?v2"
    by (simp add: map_add_def fresh)
  have nokey: "filter (\<lambda>p. fst p = ?n) (validations t) = []"
    using fresh by (auto simp: filter_empty_conv map_of_eq_None_iff image_iff)
  have keys: "?n \<notin> fst ` set (validations t)"
    using fresh by (simp add: map_of_eq_None_iff)
  show "\<exists>t2 v. map_of (targets V2) ?k = Some t2
            \<and> map_of (validations t2) ?n = Some v
            \<and> refCount v = [(?eid, Num 2)]
            \<and> length (filter (\<lambda>p. fst p = ?n) (validations t2)) = 1
            \<and> (distinct (map fst (validations t)) \<longrightarrow> distinct (map fst (validations t2)))"
    using l2 v2 nokey keys by (intro exI [of _ ?t2] exI [of _ ?v2]) simp
  have r1: "remove_rule trig [e] vf ?t2 d2 = (?t2', d2)"
    using remove_rule_decrement [OF v2, of trig e 2 d2]
    by (simp add: update_last_entry [OF fresh])
  let ?V2 = "V2\<lparr>targets := AList.update ?k ?t2' (targets V2)\<rparr>"
  let ?t3 = "fst (Target_validateAll ?V2 False ?t2' d2)"
  have l3: "map_of (targets V3) ?k = Some ?t3"
    using removeControlFunction_result(1) [OF l2 r1] rem1 by simp
  have h3: "handlers d3 = handlers d @ [(trig, e, key t)]"
    using removeControlFunction_result(2) [OF l2 r1] rem1 s2 by simp
  have vs3: "validations ?t3 = validations ?t2'
      \<or> validations ?t3 = map (\<lambda>(n, v). (n, v\<lparr>lock := False\<rparr>)) (validations ?t2')"
    by (simp add: Target_validateAll_validations)
  obtain v3 where v3: "map_of (validations ?t3) ?n = Some v3"
    "refCount v3 = [(?eid, Num 1)]" "method_fn v3 = vf_method vf"
    using map_of_validations_validateAll [of ?V2 False ?t2' d2 ?n]
    by (auto simp: map_add_def fresh)
  show "\<exists>t3 v. map_of (targets V3) ?k = Some t3
            \<and> map_of (validations t3) ?n = Some v
            \<and> refCount v = [(?eid, Num 1)]
            \<and> method_fn v = vf_method vf
            \<and> (trig, e, key t) \<in> set (handlers d3)"
    using l3 v3 h3 by auto
  let ?t3' = "?t3\<lparr>validations := AList.delete ?n (validations ?t3)\<rparr>"
  let ?d3' = "d3\<lparr>handlers := filter (\<lambda>(c, e', k). \<not> (c = trig \<and> e' = e)) (handlers d3)\<rparr>"
  have r2: "remove_rule trig [e] vf ?t3 d3 = (?t3', ?d3')"
    by (rule remove_rule_last [OF v3(1) v3(2)])
  have del: "validations ?t3' = validations t
      \<or> validations ?t3' = map (\<lambda>(n, v). (n, v\<lparr>lock := False\<rparr>)) (validations t)"
  proof -
    have "validations ?t2' = validations t @ [(?n, ?v1)]" by simp
    with vs3 have "validations ?t3 = validations t @ [(?n, ?v1)]
        \<or> validations ?t3 = map (\<lambda>(n, v). (n, v\<lparr>lock := False\<rparr>)) (validations t @ [(?n, ?v1)])"
      by (simp only:)
    then have "AList.delete ?n (validations ?t3) = validations t
        \<or> AList.delete ?n (validations ?t3)
            = map (\<lambda>(n, v). (n, v\<lparr>lock := False\<rparr>)) (validations t)"
      by (metis delete_unlock delete_last_entry [OF fresh])
    then show ?thesis by simp
  qed
  then have nil: "validations ?t3' = [] \<longleftrightarrow> validations t = []" by auto
  let ?V3 = "V3\<lparr>targets := AList.update ?k ?t3' (targets V3)\<rparr>"
  have l4: "map_of (targets V4) ?k
      = (if validations t = [] then None
         else Some (fst (Target_validateAll ?V3 False ?t3' ?d3')))"
    using removeControlFunction_result(1) [OF l3 r2] rem2 nil by simp
  have gone: "map_of (validations ?t3') ?n = None"
    by (simp add: delete_conv')
  have "map_of (validations (fst (Target_validateAll ?V3 False ?t3' ?d3'))) ?n = None"
    using map_of_validations_validateAll [of ?V3 False ?t3' ?d3' ?n] gone by simp
  with l4 show "validations t \<noteq> [] \<longrightarrow>
           (\<exists>t4. map_of (targets V4) ?k = Some t4 \<and> map_of (validations t4) ?n = None)"
    by auto
  from l4 show "validations t = [] \<longrightarrow> map_of (targets V4) ?k = None" by simp
  have "handlers d4 = filter (\<lambda>(c, e', k). \<not> (c = trig \<and> e' = e)) (handlers d3)"
    using removeControlFunction_result(2) [OF l3 r2] rem2 by simp
  then show "\<forall>k. (trig, e, k) \<notin> set (handlers d4)" by auto
qed

text \<open>
  Claim C6. A rule is kept once per target, under its name, with a number for each pair of
  trigger and event. Starting from a target that does not have the rule, registering it
  twice on the same trigger and event stores one entry with the number 2. Removing it once
  through \<open>removeControlFunction\<close> leaves the entry with the number 1, still with its
  function and with the event handler still bound; removing it a second time deletes the
  entry and unbinds the handler. If the target had no other rule, the second removal also
  deletes the target from the validator.
\<close>

theorem rule_registration_refcounted:
  assumes "map_of (targets V) (control_key c) = Some t"
    and "map_of (validations t) (vf_name vf) = None"
    and "on_target (control_key c) (Target_addValidation trig [e] vf) V d = (V1, d1)"
    and "on_target (control_key c) (Target_addValidation trig [e] vf) V1 d1 = (V2, d2)"
    and "Validator_removeControlFunction c trig [e] vf V2 d2 = (V3, d3)"
    and "Validator_removeControlFunction c trig [e] vf V3 d3 = (V4, d4)"
  shows "(\<exists>t2 v. map_of (targets V2) (control_key c) = Some t2
            \<and> map_of (validations t2) (vf_name vf) = Some v
            \<and> refCount v = [(control_key trig @ ''.'' @ e, Num 2)]
            \<and> length (filter (\<lambda>p. fst p = vf_name vf) (validations t2)) = 1
            \<and> (distinct (map fst (validations t)) \<longrightarrow> distinct (map fst (validations t2))))
    \<and> (\<exists>t3 v. map_of (targets V3) (control_key c) = Some t3
            \<and> map_of (validations t3) (vf_name vf) = Some v
            \<and> refCount v = [(control_key trig @ ''.'' @ e, Num 1)]
            \<and> method_fn v = vf_method vf
            \<and> (trig, e, key t) \<in> set (handlers d3))
    \<and> (validations t \<noteq> [] \<longrightarrow>
           (\<exists>t4. map_of (targets V4) (control_key c) = Some t4
              \<and> map_of (validations t4) (vf_name vf) = None))
    \<and> (validations t = [] \<longrightarrow> map_of (targets V4) (control_key c) = None)
    \<and> (\<forall>k. (trig, e, k) \<notin> set (handlers d4))"
  using rule_registration_steps [OF assms] by blast

theorem rule_registration_refcounted_witness:
  "map_of (targets (fst ex_reg0)) (control_key ex_control)
     = Some (ValidationTarget (ex_dom []) ex_control [] None)
   \<and> map_of (validations (ValidationTarget (ex_dom []) ex_control [] None))
         (vf_name Validator_Required) = None
   \<and> validations (ValidationTarget (ex_dom []) ex_control [] None) = []
   \<and> (\<exists>t3 v. map_of (targets (fst ex_reg3)) (control_key ex_control) = Some t3
          \<and> map_of (validations t3) (vf_name Validator_Required) = Some v
          \<and> refCount v = [(control_key ex_control @ ''.'' @ ''keyup'', Num 1)])
   \<and> map_of (targets (fst ex_reg4)) (control_key ex_control) = None"
proof -
  have h: "map_of (targets (fst ex_reg0)) (control_key ex_control)
       = Some (ValidationTarget (ex_dom []) ex_control [] None)"
    "map_of (validations (ValidationTarget (ex_dom []) ex_control [] None))
         (vf_name Validator_Required) = None"
    "validations (ValidationTarget (ex_dom []) ex_control [] None) = []"
    by (simp_all add: ex_reg0_def Validator_addTarget_def ex_validator_def Let_def
        ValidationTarget_def)
  have s: "on_target (control_key ex_control)
       (Target_addValidation ex_control [''keyup''] Validator_Required) (fst ex_reg0) (snd ex_reg0)
       = (fst ex_reg1, snd ex_reg1)"
    "on_target (control_key ex_control)
       (Target_addValidation ex_control [''keyup''] Validator_Required) (fst ex_reg1) (snd ex_reg1)
       = (fst ex_reg2, snd ex_reg2)"
    "Validator_removeControlFunction ex_control ex_control [''keyup''] Validator_Required
       (fst ex_reg2) (snd ex_reg2) = (fst ex_reg3, snd ex_reg3)"
    "Validator_removeControlFunction ex_control ex_control [''keyup''] Validator_Required
       (fst ex_reg3) (snd ex_reg3) = (fst ex_reg4, snd ex_reg4)"
    by (simp_all only: ex_reg1_def [symmetric] ex_reg2_def [symmetric] ex_reg3_def [symmetric]
        ex_reg4_def [symmetric] prod.collapse)
  show ?thesis
    using rule_registration_refcounted [OF h(1) h(2) s] h by blast
qed

section \<open>The EMail rule\<close>

lemma nullable_lang: "nullable r \<longleftrightarrow> [] \<in> lang r"
  by (induction r) (auto simp: conc_def intro: star.star_empty)

lemma star_cons:
  "c # w \<in> star A \<longleftrightarrow> (\<exists>u v. w = u @ v \<and> c # u \<in> A \<and> v \<in> star A)"
proof
  assume "c # w \<in> star A"
  then show "\<exists>u v. w = u @ v \<and> c # u \<in> A \<and> v \<in> star A"
  proof (induction "c # w" rule: star.induct)
    case (star_more u v)
    show ?case
    proof (cases u)
      case Nil
      with star_more show ?thesis by simp
    next
      case (Cons a u')
      with star_more show ?thesis by auto
    qed
  qed
next
  assume "\<exists>u v. w = u @ v \<and> c # u \<in> A \<and> v \<in> star A"
  then obtain u v where "w = u @ v" "c # u \<in> A" "v \<in> star A" by blast
  then show "c # w \<in> star A"
    using star.star_more [of "c # u" A v] by simp
qed

lemma conc_cons:
  "c # w \<in> conc A B \<longleftrightarrow>
     (\<exists>u v. w = u @ v \<and> c # u \<in> A \<and> v \<in> B) \<or> ([] \<in> A \<and> c # w \<in> B)"
  by (auto simp: conc_def Cons_eq_append_conv)

lemma lang_deriv: "w \<in> lang (deriv c r) \<longleftrightarrow> c # w \<in> lang r"
proof (induction r arbitrary: w)
  case (Seq r s)
  then show ?case
    by (auto simp: conc_cons nullable_lang) (auto simp: conc_def)
next
  case (Star r)
  then show ?case
    by (auto simp: star_cons conc_def)
qed auto

lemma lang_foldl_deriv: "w \<in> lang (foldl (\<lambda>r c. deriv c r) r s) \<longleftrightarrow> s @ w \<in> lang r"
  by (induction s arbitrary: r) (simp_all add: lang_deriv)

lemma test_lang: "test r s \<longleftrightarrow> s \<in> lang r"
  by (simp add: test_def nullable_lang lang_foldl_deriv)

lemma EMail_list:
  "concat (map (\<lambda>p. if trim p \<notin> lang patt
                      then [Fail (trim p @ '' is not a valid email address.'')] else []) ps)
   = map (\<lambda>p. Fail (trim p @ '' is not a valid email address.''))
       (filter (\<lambda>p. trim p \<notin> lang patt) ps)"
  by (induction ps) simp_all

text \<open>
  Claim C7. A value without a semicolon passes the EMail rule when it is empty or when,
  trimmed, it matches the pattern; otherwise the rule fails with a message that names the
  trimmed value. A value with a semicolon is split at the semicolons and the rule fails
  once for each segment that, trimmed, does not match the pattern, naming that trimmed
  segment and no other. In a full pass over a field with this rule, \<open>a@b.com\<close> passes,
  \<open>a@b.com;bad\<close> fails with the one message about \<open>bad\<close>, and \<open>a@b.com; c@d.org\<close> passes.
\<close>

theorem EMail_rule:
  "(CHR '';'' \<notin> set (val d c) \<longrightarrow>
      vf_method Validator_EMail d c nm =
        (if isEmpty (val d c) \<or> trim (val d c) \<in> lang patt then []
         else [Fail (trim (val d c) @ '' is not a valid email address.'')]))
   \<and> (CHR '';'' \<in> set (val d c) \<longrightarrow>
      vf_method Validator_EMail d c nm =
        map (\<lambda>p. Fail (trim p @ '' is not a valid email address.''))
          (filter (\<lambda>p. trim p \<notin> lang patt) (split (CHR '';'') (val d c))))
   \<and> status_of (Validator_validateAll False (fst (ex_email_page ''a@b.com''))
         (snd (ex_email_page ''a@b.com''))) = [(StateEnum_PASS, [])]
   \<and> status_of (Validator_validateAll False (fst (ex_email_page ''a@b.com;bad''))
         (snd (ex_email_page ''a@b.com;bad'')))
       = [(StateEnum_FAIL, [''Error: bad is not a valid email address.''])]
   \<and> status_of (Validator_validateAll False (fst (ex_email_page ''a@b.com; c@d.org''))
         (snd (ex_email_page ''a@b.com; c@d.org''))) = [(StateEnum_PASS, [])]"
proof -
  have general: "(CHR '';'' \<notin> set (val d c) \<longrightarrow>
      vf_method Validator_EMail d c nm =
        (if isEmpty (val d c) \<or> trim (val d c) \<in> lang patt then []
         else [Fail (trim (val d c) @ '' is not a valid email address.'')]))
   \<and> (CHR '';'' \<in> set (val d c) \<longrightarrow>
      vf_method Validator_EMail d c nm =
        map (\<lambda>p. Fail (trim p @ '' is not a valid email address.''))
          (filter (\<lambda>p. trim p \<notin> lang patt) (split (CHR '';'') (val d c))))"
    by (simp add: Validator_EMail_def Let_def EMail_list test_lang)
  have e1: "status_of (Validator_validateAll False (fst (ex_email_page ''a@b.com''))
         (snd (ex_email_page ''a@b.com''))) = [(StateEnum_PASS, [])]"
    by code_simp
  have e2: "status_of (Validator_validateAll False (fst (ex_email_page ''a@b.com;bad''))
         (snd (ex_email_page ''a@b.com;bad'')))
       = [(StateEnum_FAIL, [''Error: bad is not a valid email address.''])]"
    by code_simp
  have e3: "status_of (Validator_validateAll False (fst (ex_email_page ''a@b.com; c@d.org''))
         (snd (ex_email_page ''a@b.com; c@d.org''))) = [(StateEnum_PASS, [])]"
    by code_simp
  from general e1 e2 e3 show ?thesis by (intro conjI) blast+
qed

theorem EMail_rule_witness:
  "CHR '';'' \<in> set (val (ex_dom ''a@b.com;bad'') ex_control)
   \<and> CHR '';'' \<notin> set (val (ex_dom ''bad'') ex_control)
   \<and> vf_method Validator_EMail (ex_dom ''a@b.com;bad'') ex_control ''E-mail'' =
        map (\<lambda>p. Fail (trim p @ '' is not a valid email address.''))
          (filter (\<lambda>p. trim p \<notin> lang patt)
            (split (CHR '';'') (val (ex_dom ''a@b.com;bad'') ex_control)))
   \<and> vf_method Validator_EMail (ex_dom ''bad'') ex_control ''E-mail'' =
        (if isEmpty (val (ex_dom ''bad'') ex_control)
            \<or> trim (val (ex_dom ''bad'') ex_control) \<in> lang patt then []
         else [Fail (trim (val (ex_dom ''bad'') ex_control) @ '' is not a valid email address.'')])"
proof -
  have h: "CHR '';'' \<in> set (val (ex_dom ''a@b.com;bad'') ex_control)"
    "CHR '';'' \<notin> set (val (ex_dom ''bad'') ex_control)"
    by (simp_all add: ex_dom_def)
  show ?thesis
    using EMail_rule [of "ex_dom ''a@b.com;bad''" ex_control "''E-mail''"]
      EMail_rule [of "ex_dom ''bad''" ex_control "''E-mail''"] h
    by blast
qed

section \<open>Dates\<close>

lemma in_digit_class [simp]: "in_class c [(CHR ''0'', CHR ''9'')] \<longleftrightarrow> is_digit c"
  by (simp add: in_class_def is_digit_def)

lemma in_sep_class [simp]:
  "in_class c [(CHR ''-'', CHR ''-''), (CHR ''/'', CHR ''/'')] \<longleftrightarrow> is_sep c"
proof -
  have "(of_char c = (45::nat)) = (c = CHR ''-'')" "(of_char c = (47::nat)) = (c = CHR ''/'')"
    using of_char_eq_iff [of c "CHR ''-''", where ?'a = nat]
      of_char_eq_iff [of c "CHR ''/''", where ?'a = nat] by simp_all
  then show ?thesis
    by (auto simp: in_class_def is_sep_def)
qed

lemma star_Cls: "w \<in> star {[c] | c. P c} \<longleftrightarrow> list_all P w"
proof
  assume "w \<in> star {[c] | c. P c}"
  then show "list_all P w" by (induction rule: star.induct) auto
next
  assume "list_all P w"
  then show "w \<in> star {[c] | c. P c}"
  proof (induction w)
    case Nil
    show ?case by (rule star.star_empty)
  next
    case (Cons a w)
    then have "[a] @ w \<in> star {[c] | c. P c}" by (intro star.star_more) auto
    then show ?case by simp
  qed
qed

lemma conc_single: "w \<in> conc {[c] | c. P c} B \<longleftrightarrow> (\<exists>c v. w = c # v \<and> P c \<and> v \<in> B)"
proof
  assume "w \<in> conc {[c] | c. P c} B"
  then show "\<exists>c v. w = c # v \<and> P c \<and> v \<in> B" by (auto simp: conc_def)
next
  assume "\<exists>c v. w = c # v \<and> P c \<and> v \<in> B"
  then obtain c v where "w = [c] @ v" "P c" "v \<in> B" by auto
  then show "w \<in> conc {[c] | c. P c} B" unfolding conc_def by blast
qed

lemma lang_Plus_Cls:
  "w \<in> lang (Plus (Cls rs)) \<longleftrightarrow> w \<noteq> [] \<and> list_all (\<lambda>c. in_class c rs) w"
  by (cases w) (auto simp: Plus_def conc_single star_Cls)

lemma lang_Plus_digit [simp]:
  "w \<in> lang (Plus digit_class) \<longleftrightarrow> w \<noteq> [] \<and> list_all is_digit w"
  by (simp add: digit_class_def lang_Plus_Cls)

lemma lang_rx:
  "data \<in> lang rx \<longleftrightarrow>
     (\<exists>a s1 b s2 c. data = a @ s1 # b @ s2 # c
        \<and> a \<noteq> [] \<and> list_all is_digit a \<and> is_sep s1
        \<and> b \<noteq> [] \<and> list_all is_digit b \<and> is_sep s2
        \<and> c \<noteq> [] \<and> list_all is_digit c)"
proof -
  have S: "\<And>w B. w \<in> conc (lang sep_class) B \<longleftrightarrow> (\<exists>s v. w = s # v \<and> is_sep s \<and> v \<in> B)"
    by (simp add: sep_class_def conc_single)
  have D: "\<And>w B. w \<in> conc (lang (Plus digit_class)) B
      \<longleftrightarrow> (\<exists>a v. w = a @ v \<and> a \<noteq> [] \<and> list_all is_digit a \<and> v \<in> B)"
    unfolding conc_def by auto
  show ?thesis
    unfolding rx_def lang.simps(4) D S lang_Plus_digit by blast
qed

lemma not_digit_sep: "is_sep s \<Longrightarrow> \<not> is_digit s"
  by (auto simp: is_sep_def is_digit_def)

lemma rx_match_iff:
  "rx_match data = Some (a, b, c) \<longleftrightarrow>
     (\<exists>s1 s2. data = a @ s1 # b @ s2 # c
        \<and> a \<noteq> [] \<and> list_all is_digit a \<and> is_sep s1
        \<and> b \<noteq> [] \<and> list_all is_digit b \<and> is_sep s2
        \<and> c \<noteq> [] \<and> list_all is_digit c)"
proof
  assume m: "rx_match data = Some (a, b, c)"
  then obtain s1 r1 where r1: "dropWhile is_digit data = s1 # r1"
    by (auto simp: rx_match_def split: list.splits)
  with m obtain s2 r2 where r2: "dropWhile is_digit r1 = s2 # r2"
    by (auto simp: rx_match_def split: list.splits)
  from m r1 r2 have f: "a = takeWhile is_digit data" "b = takeWhile is_digit r1" "c = r2"
    "a \<noteq> []" "is_sep s1" "b \<noteq> []" "is_sep s2" "c \<noteq> []" "list_all is_digit c"
    by (auto simp: rx_match_def split: if_splits)
  have "data = a @ s1 # r1" using r1 f(1) takeWhile_dropWhile_id [of is_digit data] by simp
  moreover have "r1 = b @ s2 # c" using r2 f(2,3) takeWhile_dropWhile_id [of is_digit r1] by simp
  ultimately have d: "data = a @ s1 # b @ s2 # c" by simp
  have g: "list_all is_digit a" "list_all is_digit b"
    using f(1,2) by (auto simp: list_all_iff dest: set_takeWhileD)
  show "\<exists>s1 s2. data = a @ s1 # b @ s2 # c
        \<and> a \<noteq> [] \<and> list_all is_digit a \<and> is_sep s1
        \<and> b \<noteq> [] \<and> list_all is_digit b \<and> is_sep s2
        \<and> c \<noteq> [] \<and> list_all is_digit c"
    using d g f(4-9) by blast
next
  assume "\<exists>s1 s2. data = a @ s1 # b @ s2 # c
        \<and> a \<noteq> [] \<and> list_all is_digit a \<and> is_sep s1
        \<and> b \<noteq> [] \<and> list_all is_digit b \<and> is_sep s2
        \<and> c \<noteq> [] \<and> list_all is_digit c"
  then obtain s1 s2 where d: "data = a @ s1 # b @ s2 # c"
    and f: "a \<noteq> []" "list_all is_digit a" "is_sep s1" "b \<noteq> []" "list_all is_digit b"
      "is_sep s2" "c \<noteq> []" "list_all is_digit c"
    by blast
  have t1: "takeWhile is_digit data = a" "dropWhile is_digit data = s1 # b @ s2 # c"
    using d f(2,3) by (simp_all add: list_all_iff not_digit_sep takeWhile_append2 dropWhile_append2)
  have t2: "takeWhile is_digit (b @ s2 # c) = b" "dropWhile is_digit (b @ s2 # c) = s2 # c"
    using f(5,6) by (simp_all add: list_all_iff not_digit_sep takeWhile_append2 dropWhile_append2)
  show "rx_match data = Some (a, b, c)"
    using f by (simp add: rx_match_def t1 t2)
qed

lemma test_rx: "test rx data \<longleftrightarrow> rx_match data \<noteq> None"
proof -
  have "rx_match data \<noteq> None \<longleftrightarrow> (\<exists>a b c. rx_match data = Some (a, b, c))"
    by (cases "rx_match data") auto
  then show ?thesis
    unfolding test_lang lang_rx rx_match_iff by blast
qed

lemma digit_not_other:
  "is_digit c \<Longrightarrow> \<not> is_space c \<and> c \<noteq> CHR ''-'' \<and> c \<noteq> CHR ''+'' \<and> c \<noteq> CHR ''x'' \<and> c \<noteq> CHR ''X''"
  by (auto simp: is_digit_def is_space_def)

lemma takeWhile_all: "list_all P xs \<Longrightarrow> takeWhile P xs = xs"
  by (induction xs) auto

lemma parseInt_digits:
  assumes "a \<noteq> []" "list_all is_digit a"
  shows "parseInt a = Num (int (digits_value a))"
proof -
  obtain c u where a: "a = c # u" using assms(1) by (cases a) auto
  have c: "is_digit c" "list_all is_digit u" using assms(2) a by auto
  have nohex: "\<not> (take 2 (c # u) = ''0x'' \<or> take 2 (c # u) = ''0X'')"
    using c digit_not_other by (cases u; auto)
  have tw: "takeWhile is_digit (c # u) = c # u"
    using c by (simp add: takeWhile_all)
  have "parse_unsigned (c # u) 1 = Num (int (digits_value (c # u)))"
    unfolding parse_unsigned_def tw using nohex by (simp only: if_False) simp
  then show ?thesis
    using c(1) digit_not_other [of c] by (simp add: parseInt_def a)
qed

lemma normalizeDate_Some:
  assumes "rx_match data = Some (a, b, c)"
  shows "normalizeDate data window =
     (let m = int (digits_value a); d = int (digits_value b); y0 = int (digits_value c);
          y = (if number_less (Num y0) (parseInt_attr window) then y0 + 2000
               else if y0 < 100 then y0 + 1900 else y0)
      in Some \<lparr>parts_m = Num m, parts_d = Num d, parts_y = Num y,
           parts_mdy = string_of_number (Num m) @ ''/'' @ string_of_number (Num d) @ ''/''
             @ string_of_number (Num y)\<rparr>)"
proof -
  from assms have "a \<noteq> []" "list_all is_digit a" "b \<noteq> []" "list_all is_digit b"
    "c \<noteq> []" "list_all is_digit c"
    unfolding rx_match_iff by auto
  then have "parseInt a = Num (int (digits_value a))" "parseInt b = Num (int (digits_value b))"
    "parseInt c = Num (int (digits_value c))"
    by (simp_all add: parseInt_digits)
  then show ?thesis
    using assms by (simp add: normalizeDate_def Let_def del: string_of_number.simps)
qed

lemma parseInt_attr_None: "parseInt_attr None = NaN"
  by code_simp

lemma isDate_iff:
  "isDate mkDate data window \<longleftrightarrow>
     (\<exists>a b c s1 s2. data = a @ s1 # b @ s2 # c
        \<and> a \<noteq> [] \<and> list_all is_digit a \<and> is_sep s1
        \<and> b \<noteq> [] \<and> list_all is_digit b \<and> is_sep s2
        \<and> c \<noteq> [] \<and> list_all is_digit c
        \<and> (let m = int (digits_value a); d = int (digits_value b); y0 = int (digits_value c);
                 y = (if number_less (Num y0) (parseInt_attr window) then y0 + 2000
                      else if y0 < 100 then y0 + 1900 else y0)
             in mkDate (string_of_number (Num m) @ ''/'' @ string_of_number (Num d) @ ''/''
                    @ string_of_number (Num y)) = Some (m, d, y)))"
proof -
  let ?shape = "\<lambda>a b c s1 s2. data = a @ s1 # b @ s2 # c
        \<and> a \<noteq> [] \<and> list_all is_digit a \<and> is_sep s1
        \<and> b \<noteq> [] \<and> list_all is_digit b \<and> is_sep s2
        \<and> c \<noteq> [] \<and> list_all is_digit c"
  let ?ok = "\<lambda>a b c.
     (let m = int (digits_value a); d = int (digits_value b); y0 = int (digits_value c);
                 y = (if number_less (Num y0) (parseInt_attr window) then y0 + 2000
                      else if y0 < 100 then y0 + 1900 else y0)
             in mkDate (string_of_number (Num m) @ ''/'' @ string_of_number (Num d) @ ''/''
                    @ string_of_number (Num y)) = Some (m, d, y))"
  have "isDate mkDate data window \<longleftrightarrow> (\<exists>a b c s1 s2. ?shape a b c s1 s2 \<and> ?ok a b c)"
  proof (cases "rx_match data")
  case None
  then have "\<not> test rx data" by (simp add: test_rx)
  then have "\<not> isDate mkDate data window" by (simp add: isDate_def)
  moreover have "\<not> (\<exists>a b c s1 s2. ?shape a b c s1 s2)"
    using None rx_match_iff [of data] by (metis option.distinct(1))
  ultimately show ?thesis by blast
next
  case (Some g)
  obtain a b c where g: "g = (a, b, c)" by (cases g)
  have m: "rx_match data = Some (a, b, c)" using Some g by simp
  have t: "test rx data" using m by (simp add: test_rx)
  define mm where "mm = int (digits_value a)"
  define dd where "dd = int (digits_value b)"
  define yy where "yy = (if number_less (Num (int (digits_value c))) (parseInt_attr window)
      then int (digits_value c) + 2000
      else if int (digits_value c) < 100 then int (digits_value c) + 1900
      else int (digits_value c))"
  define mdy where "mdy = string_of_number (Num mm) @ ''/'' @ string_of_number (Num dd) @ ''/''
      @ string_of_number (Num yy)"
  have N: "normalizeDate data window
      = Some \<lparr>parts_m = Num mm, parts_d = Num dd, parts_y = Num yy, parts_mdy = mdy\<rparr>"
    unfolding normalizeDate_Some [OF m] Let_def mm_def dd_def yy_def mdy_def by (rule refl)
  have L: "isDate mkDate data window \<longleftrightarrow> mkDate mdy = Some (mm, dd, yy)"
    by (cases "mkDate mdy") (auto simp: isDate_def t N)
  have ok: "?ok a b c \<longleftrightarrow> mkDate mdy = Some (mm, dd, yy)"
    unfolding Let_def mm_def dd_def yy_def mdy_def by (rule refl)
  have "(\<exists>a' b' c' s1 s2. ?shape a' b' c' s1 s2 \<and> ?ok a' b' c')
      \<longleftrightarrow> (\<exists>a' b' c'. rx_match data = Some (a', b', c') \<and> ?ok a' b' c')"
    unfolding rx_match_iff by blast
  also have "\<dots> \<longleftrightarrow> ?ok a b c" unfolding m by blast
  finally show ?thesis unfolding L ok by (rule sym)
  qed
  then show ?thesis by simp
qed

lemma days_in_month_bounds: "28 \<le> days_in_month m y \<and> days_in_month m y \<le> 31"
  by (simp add: days_in_month_def)

lemma roll_days_range:
  "1 \<le> m \<Longrightarrow> m \<le> 12 \<Longrightarrow> 1 \<le> d \<Longrightarrow> roll_days m d y = (m', d', y')
     \<Longrightarrow> 1 \<le> m' \<and> m' \<le> 12 \<and> 1 \<le> d' \<and> d' \<le> 31"
proof (induction m d y rule: roll_days.induct)
  case (1 m d y)
  note U = roll_days.simps [of m d y]
  show ?case
  proof (cases "d > days_in_month m y")
    case False
    with "1.prems" U days_in_month_bounds [of m y] show ?thesis by simp
  next
    case over: True
    show ?thesis
    proof (cases "m = 12")
      case True
      with over "1.prems" U
      have "roll_days 1 (d - days_in_month m y) (y + 1) = (m', d', y')" by simp
      with "1.IH"(1) [OF over True] over show ?thesis by simp
    next
      case False
      with over "1.prems" U
      have "roll_days (m + 1) (d - days_in_month m y) y = (m', d', y')" by simp
      with "1.IH"(2) [OF over False] over False "1.prems" show ?thesis by simp
    qed
  qed
qed

lemma lenientDate_range:
  "lenientDate s = Some (m, d, y) \<Longrightarrow> 1 \<le> m \<and> m \<le> 12 \<and> 1 \<le> d \<and> d \<le> 31"
proof -
  assume a: "lenientDate s = Some (m, d, y)"
  then obtain g where g: "rx_match s = Some g"
    by (cases "rx_match s") (simp_all add: lenientDate_def)
  obtain a b c where rxm: "rx_match s = Some (a, b, c)" using g by (cases g) simp
  define M where "M = int (digits_value a)"
  define D where "D = int (digits_value b)"
  define Y where "Y = int (digits_value c)"
  have u: "lenientDate s =
      (if M < 1 \<or> D < 1 then None else Some (roll_days ((M - 1) mod 12 + 1) D (Y + (M - 1) div 12)))"
    by (simp only: lenientDate_def rxm option.case prod.case Let_def M_def D_def Y_def)
  from a u have p: "1 \<le> D" and r: "roll_days ((M - 1) mod 12 + 1) D (Y + (M - 1) div 12) = (m, d, y)"
    by (simp_all split: if_splits)
  have "1 \<le> (M - 1) mod 12 + 1" "(M - 1) mod 12 + 1 \<le> 12"
    by simp_all
  then show ?thesis using roll_days_range [OF _ _ p r] by blast
qed

text \<open>
  Claim C5. With any date constructor that yields months from 1 to 12 and days from 1 to 31
  and that builds the tenth of February 2015 from \<open>2/10/2015\<close>, \<open>isDate\<close> accepts a string
  exactly when it consists of three runs of digits separated by \<open>-\<close> or \<open>/\<close> and the date
  built from the normalized string \<open>m/d/y\<close> has the month, the day and the (windowed) year
  that were parsed from the string. So \<open>1/41/2015\<close> and \<open>13/01/2015\<close> are rejected,
  whatever date the engine makes of them, and \<open>02/10/2015\<close> is accepted; the Date rule
  fails for the first and passes the last.
\<close>

theorem isDate_roundtrip:
  assumes "\<forall>s m d y. mkDate s = Some (m, d, y) \<longrightarrow> 1 \<le> m \<and> m \<le> 12 \<and> 1 \<le> d \<and> d \<le> 31"
    and "mkDate ''2/10/2015'' = Some (2, 10, 2015)"
  shows "(isDate mkDate data window \<longleftrightarrow>
     (\<exists>a b c s1 s2. data = a @ s1 # b @ s2 # c
        \<and> a \<noteq> [] \<and> list_all is_digit a \<and> is_sep s1
        \<and> b \<noteq> [] \<and> list_all is_digit b \<and> is_sep s2
        \<and> c \<noteq> [] \<and> list_all is_digit c
        \<and> (let m = int (digits_value a); d = int (digits_value b); y0 = int (digits_value c);
                 y = (if number_less (Num y0) (parseInt_attr window) then y0 + 2000
                      else if y0 < 100 then y0 + 1900 else y0)
             in mkDate (string_of_number (Num m) @ ''/'' @ string_of_number (Num d) @ ''/''
                    @ string_of_number (Num y)) = Some (m, d, y))))
    \<and> \<not> isDate mkDate ''1/41/2015'' None
    \<and> isDate mkDate ''02/10/2015'' None
    \<and> \<not> isDate mkDate ''13/01/2015'' None
    \<and> vf_method (Validator_Date mkDate) (ex_dom ''1/41/2015'') ex_control ''Start''
        = [Fail ''Start, 1/41/2015 is not a date.'']
    \<and> vf_method (Validator_Date mkDate) (ex_dom ''02/10/2015'') ex_control ''Start'' = []"
proof -
  have t: "test rx ''1/41/2015''" "test rx ''02/10/2015''" "test rx ''13/01/2015''"
    by code_simp+
  have n1: "normalizeDate ''1/41/2015'' None
      = Some \<lparr>parts_m = Num 1, parts_d = Num 41, parts_y = Num 2015, parts_mdy = ''1/41/2015''\<rparr>"
    by code_simp
  have n2: "normalizeDate ''02/10/2015'' None
      = Some \<lparr>parts_m = Num 2, parts_d = Num 10, parts_y = Num 2015, parts_mdy = ''2/10/2015''\<rparr>"
    by code_simp
  have n3: "normalizeDate ''13/01/2015'' None
      = Some \<lparr>parts_m = Num 13, parts_d = Num 1, parts_y = Num 2015, parts_mdy = ''13/1/2015''\<rparr>"
    by code_simp
  have e1: "\<not> isDate mkDate ''1/41/2015'' None"
    using assms(1) by (fastforce simp: isDate_def t n1 split: option.splits)
  have e2: "isDate mkDate ''02/10/2015'' None"
    using assms(2) by (simp add: isDate_def t n2)
  have e3: "\<not> isDate mkDate ''13/01/2015'' None"
    using assms(1) by (fastforce simp: isDate_def t n3 split: option.splits)
  have v: "val (ex_dom ''1/41/2015'') ex_control = ''1/41/2015''"
    "val (ex_dom ''02/10/2015'') ex_control = ''02/10/2015''"
    "dateWindow (ex_dom ''1/41/2015'') ex_control = None"
    "dateWindow (ex_dom ''02/10/2015'') ex_control = None"
    by (simp_all add: ex_dom_def)
  have ne: "\<not> isEmpty ''1/41/2015''" "\<not> isEmpty ''02/10/2015''" "test format_rx ''02/10/2015''"
    by code_simp+
  have r1: "vf_method (Validator_Date mkDate) (ex_dom ''1/41/2015'') ex_control ''Start''
        = [Fail ''Start, 1/41/2015 is not a date.'']"
    using e1 ne by (simp add: Validator_Date_def v)
  have r2: "vf_method (Validator_Date mkDate) (ex_dom ''02/10/2015'') ex_control ''Start'' = []"
    using e2 ne by (simp add: Validator_Date_def v)
  show ?thesis
    using isDate_iff [of mkDate data window] e1 e2 e3 r1 r2 by (intro conjI) blast+
qed

lemma lenientDate_example: "lenientDate ''2/10/2015'' = Some (2, 10, 2015)"
  by code_simp

theorem isDate_roundtrip_witness:
  "lenientDate ''2/10/2015'' = Some (2, 10, 2015)
   \<and> \<not> isDate lenientDate ''1/41/2015'' None
   \<and> isDate lenientDate ''02/10/2015'' None
   \<and> \<not> isDate lenientDate ''13/01/2015'' None"
proof -
  have h: "\<forall>s m d y. lenientDate s = Some (m, d, y) \<longrightarrow> 1 \<le> m \<and> m \<le> 12 \<and> 1 \<le> d \<and> d \<le> 31"
    using lenientDate_range by blast
  show ?thesis
    using isDate_roundtrip [OF h lenientDate_example, of "''02/10/2015''" None]
      lenientDate_example by blast
qed

text \<open>
  Claim C4. The comment in \<open>normalizeDate\<close> says that 50 is used when no window is defined,
  but \<open>parseInt(undefined)\<close> is \<open>NaN\<close> and raises nothing, so the default is never set:
  without a \<open>date-window\<close> attribute no two-digit year is below the window, and the year
  49 becomes 1949, not 2049. With the attribute set to 50, 49 becomes 2049 and 51 becomes
  1951.
\<close>

theorem default_window_not_applied:
  "parseInt_attr None = NaN
   \<and> map_option parts_y (normalizeDate ''1/1/49'' None) = Some (Num 1949)
   \<and> map_option parts_y (normalizeDate ''1/1/51'' None) = Some (Num 1951)
   \<and> map_option parts_y (normalizeDate ''1/1/49'' (Some ''50'')) = Some (Num 2049)
   \<and> map_option parts_y (normalizeDate ''1/1/51'' (Some ''50'')) = Some (Num 1951)
   \<and> isDate lenientDate ''1/1/49'' None"
  by code_simp

section \<open>Properties of the calculator\<close>

lemma digit_not_point: "is_digit c \<Longrightarrow> c \<noteq> CHR ''.''"
  by (auto simp: is_digit_def)

lemma point_not_space: "\<not> is_space (CHR ''.'')" "\<not> is_digit (CHR ''.'')"
  by (simp_all add: is_space_def is_digit_def)

lemma parseInt_decimal:
  assumes "ip \<noteq> []" "list_all is_digit ip"
  shows "parseInt (ip @ ''.'' @ fp) = Num (int (digits_value ip))"
proof -
  obtain c u where ip: "ip = c # u" using assms(1) by (cases ip) auto
  have c: "is_digit c" "list_all is_digit u" using assms(2) ip by auto
  have nohex: "\<not> (take 2 (c # u @ ''.'' @ fp) = ''0x'' \<or> take 2 (c # u @ ''.'' @ fp) = ''0X'')"
    using c digit_not_other by (cases u; auto)
  have tw: "takeWhile is_digit (c # u @ ''.'' @ fp) = c # u"
    using c by (simp add: list_all_iff point_not_space)
  have "parse_unsigned (c # u @ ''.'' @ fp) 1 = Num (int (digits_value (c # u)))"
    unfolding parse_unsigned_def tw using nohex by (simp only: if_False) simp
  then show ?thesis
    using c(1) digit_not_other [of c] by (simp add: parseInt_def ip)
qed

lemma trim_id:
  assumes "s \<noteq> []" "\<not> is_space (hd s)" "\<not> is_space (last s)"
  shows "trim s = s"
proof -
  have "dropWhile is_space s = s" using assms(1,2) by (cases s) auto
  moreover have "dropWhile is_space (rev s) = rev s"
    using assms(1,3) by (cases "rev s") (auto simp: last_rev [symmetric] hd_rev)
  ultimately show ?thesis by (simp add: trim_def)
qed

lemma ToNumber_decimal:
  assumes "list_all is_digit ip" "list_all is_digit fp" "ip \<noteq> [] \<or> fp \<noteq> []"
  shows "ToNumber (ip @ ''.'' @ fp) = Fin (decimal_value ip fp)"
proof -
  let ?s = "ip @ ''.'' @ fp"
  have h: "\<not> is_space (hd ?s)"
    using assms(1) digit_not_other by (cases ip) (auto simp: point_not_space)
  have l: "\<not> is_space (last ?s)"
    using assms(2) digit_not_other [of "last fp"]
    by (cases "fp = []") (auto simp: point_not_space list_all_iff)
  have t: "trim ?s = ?s" by (rule trim_id [OF _ h l]) simp
  have tw: "takeWhile is_digit ?s = ip" "dropWhile is_digit ?s = ''.'' @ fp"
    using assms(1) by (simp_all add: list_all_iff point_not_space)
  show ?thesis
    unfolding ToNumber_def Let_def t tw using assms by simp
qed

lemma calc_plus:
  "op s = ''+'' \<Longrightarrow>
     calc s = s\<lparr>reg := Number (of_number
                 (number_add (parseInt_val (reg s)) (parseInt_val (of_acc (acc s))))),
             display := Number (of_number
                 (number_add (parseInt_val (reg s)) (parseInt_val (of_acc (acc s)))))\<rparr>"
  by (simp add: calc_def)

lemma calc_others:
  "op s = ''-'' \<Longrightarrow> reg (calc s) = Number (js_minus (to_num (reg s)) (to_num (of_acc (acc s))))"
  "op s = ''*'' \<Longrightarrow> reg (calc s) = Number (js_times (to_num (reg s)) (to_num (of_acc (acc s))))"
  "op s = ''/'' \<Longrightarrow> parseFloat_val (of_acc (acc s)) \<noteq> Fin 0 \<Longrightarrow>
     reg (calc s) = Number (js_divide (to_num (reg s)) (to_num (of_acc (acc s))))"
  "display (calc s) = reg (calc s)"
  by (simp_all add: calc_def Let_def)

text \<open>
  Claim C9. With the operator \<open>+\<close>, \<open>calc\<close> stores and displays the sum of \<open>parseInt\<close> of
  the register and \<open>parseInt\<close> of the accumulator, and \<open>parseInt\<close> of a decimal string is
  the value of the digits before the point: 1.5 + 2.7 displays 3. With \<open>-\<close>, \<open>*\<close> and
  \<open>/\<close> the operands are converted as they are, a decimal string to the value with its
  fraction: 1.5 * 2 displays 3, 2.5 - 1 and 3 / 2 display 3/2.
\<close>

theorem plus_uses_parseInt:
  "(op s = ''+'' \<longrightarrow>
      reg (calc s) = Number (of_number
         (number_add (parseInt_val (reg s)) (parseInt_val (of_acc (acc s)))))
      \<and> display (calc s) = reg (calc s))
   \<and> (ip \<noteq> [] \<and> list_all is_digit ip \<longrightarrow>
        parseInt_val (Str (ip @ ''.'' @ fp)) = Num (int (digits_value ip)))
   \<and> (op s = ''-'' \<longrightarrow>
        reg (calc s) = Number (js_minus (to_num (reg s)) (to_num (of_acc (acc s)))))
   \<and> (op s = ''*'' \<longrightarrow>
        reg (calc s) = Number (js_times (to_num (reg s)) (to_num (of_acc (acc s)))))
   \<and> (op s = ''/'' \<and> parseFloat_val (of_acc (acc s)) \<noteq> Fin 0 \<longrightarrow>
        reg (calc s) = Number (js_divide (to_num (reg s)) (to_num (of_acc (acc s)))))
   \<and> (list_all is_digit ip \<and> list_all is_digit fp \<and> (ip \<noteq> [] \<or> fp \<noteq> []) \<longrightarrow>
        to_num (Str (ip @ ''.'' @ fp)) = Fin (decimal_value ip fp))
   \<and> display (run [NumberButton ''1'', NumberButton ''.'', NumberButton ''5'', OpButton ''+'',
         NumberButton ''2'', NumberButton ''.'', NumberButton ''7'', OpButton ''=''])
       = Number (Fin 3)
   \<and> display (run [NumberButton ''1'', NumberButton ''.'', NumberButton ''5'', OpButton ''*'',
         NumberButton ''2'', OpButton ''='']) = Number (Fin 3)
   \<and> display (run [NumberButton ''2'', NumberButton ''.'', NumberButton ''5'', OpButton ''-'',
         NumberButton ''1'', OpButton ''='']) = Number (Fin (3 / 2))
   \<and> display (run [NumberButton ''3'', OpButton ''/'', NumberButton ''2'', OpButton ''=''])
       = Number (Fin (3 / 2))"
proof -
  have e1: "display (run [NumberButton ''1'', NumberButton ''.'', NumberButton ''5'', OpButton ''+'',
         NumberButton ''2'', NumberButton ''.'', NumberButton ''7'', OpButton ''=''])
       = Number (Fin 3)"
    by code_simp
  have e2: "display (run [NumberButton ''1'', NumberButton ''.'', NumberButton ''5'', OpButton ''*'',
         NumberButton ''2'', OpButton ''='']) = Number (Fin 3)"
    by code_simp
  have e3: "display (run [NumberButton ''2'', NumberButton ''.'', NumberButton ''5'', OpButton ''-'',
         NumberButton ''1'', OpButton ''='']) = Number (Fin (3 / 2))"
    by code_simp
  have e4: "display (run [NumberButton ''3'', OpButton ''/'', NumberButton ''2'', OpButton ''=''])
       = Number (Fin (3 / 2))"
    by code_simp
  show ?thesis
    using e1 e2 e3 e4 calc_others [of s] calc_plus [of s] parseInt_decimal [of ip fp]
      ToNumber_decimal [of ip fp]
    by (intro conjI impI) simp_all
qed

theorem plus_uses_parseInt_witness:
  "op (run [NumberButton ''1'', NumberButton ''.'', NumberButton ''5'', OpButton ''+'',
       NumberButton ''2'', NumberButton ''.'', NumberButton ''7'']) = ''+''
   \<and> ''1'' \<noteq> [] \<and> list_all is_digit ''1'' \<and> list_all is_digit ''5''
   \<and> parseInt_val (Str (''1'' @ ''.'' @ ''5'')) = Num (int (digits_value ''1''))
   \<and> to_num (Str (''1'' @ ''.'' @ ''5'')) = Fin (decimal_value ''1'' ''5'')
   \<and> reg (calc (run [NumberButton ''1'', NumberButton ''.'', NumberButton ''5'', OpButton ''+'',
       NumberButton ''2'', NumberButton ''.'', NumberButton ''7'']))
     = Number (of_number (number_add
         (parseInt_val (reg (run [NumberButton ''1'', NumberButton ''.'', NumberButton ''5'',
            OpButton ''+'', NumberButton ''2'', NumberButton ''.'', NumberButton ''7''])))
         (parseInt_val (of_acc (acc (run [NumberButton ''1'', NumberButton ''.'',
            NumberButton ''5'', OpButton ''+'', NumberButton ''2'', NumberButton ''.'',
            NumberButton ''7'']))))))"
proof -
  have h: "op (run [NumberButton ''1'', NumberButton ''.'', NumberButton ''5'', OpButton ''+'',
       NumberButton ''2'', NumberButton ''.'', NumberButton ''7'']) = ''+''"
    "''1'' \<noteq> []" "list_all is_digit ''1''" "list_all is_digit ''5''"
    by code_simp+
  show ?thesis
    using plus_uses_parseInt [of "run [NumberButton ''1'', NumberButton ''.'', NumberButton ''5'',
       OpButton ''+'', NumberButton ''2'', NumberButton ''.'', NumberButton ''7'']" "''1''" "''5''"] h
    by blast
qed

text \<open>
  Claim C10. When the operator is \<open>/\<close> and \<open>parseFloat\<close> of the accumulator is 0, \<open>calc\<close>
  does not divide: the register and the display become the string \<open>Divide by zero.\<close> and
  the error flag is set, nothing else changes. A number button pressed while the error flag
  is set acts as on the cleared calculator, in which the accumulator is 0, the operator is
  empty, the error and decimal flags are off and the display shows 0.
\<close>

theorem divide_by_zero_error:
  "(op s = ''/'' \<and> parseFloat_val (of_acc (acc s)) = Fin 0 \<longrightarrow>
      calc s = s\<lparr>reg := Str ''Divide by zero.'', err := True,
                  display := Str ''Divide by zero.''\<rparr>)
   \<and> (err s \<longrightarrow> numberClick num s = numberClick num (clear s))
   \<and> acc (clear s) = AccZero \<and> op (clear s) = [] \<and> \<not> err (clear s)
   \<and> \<not> decimal (clear s) \<and> display (clear s) = Number (Fin 0) \<and> reg (clear s) = reg s
   \<and> run [NumberButton ''8'', OpButton ''/'', NumberButton ''0'', OpButton ''='']
       = \<lparr>acc = AccZero, reg = Str ''Divide by zero.'', op = ''/'', err = True,
          decimal = False, display = Str ''Divide by zero.''\<rparr>
   \<and> run [NumberButton ''8'', OpButton ''/'', NumberButton ''0'', OpButton ''='',
          NumberButton ''5'']
       = \<lparr>acc = AccStr ''5'', reg = Str ''Divide by zero.'', op = [], err = False,
          decimal = False, display = Str ''5''\<rparr>"
proof -
  have e1: "run [NumberButton ''8'', OpButton ''/'', NumberButton ''0'', OpButton ''='']
       = \<lparr>acc = AccZero, reg = Str ''Divide by zero.'', op = ''/'', err = True,
          decimal = False, display = Str ''Divide by zero.''\<rparr>"
    by code_simp
  have e2: "run [NumberButton ''8'', OpButton ''/'', NumberButton ''0'', OpButton ''='',
          NumberButton ''5'']
       = \<lparr>acc = AccStr ''5'', reg = Str ''Divide by zero.'', op = [], err = False,
          decimal = False, display = Str ''5''\<rparr>"
    by code_simp
  have c: "acc (clear s) = AccZero \<and> op (clear s) = [] \<and> \<not> err (clear s)
   \<and> \<not> decimal (clear s) \<and> display (clear s) = Number (Fin 0) \<and> reg (clear s) = reg s"
    by (simp add: clear_def clearAcc_def Let_def)
  have n: "err s \<longrightarrow> numberClick num s = numberClick num (clear s)"
    using c by (simp add: numberClick_def)
  have d: "op s = ''/'' \<and> parseFloat_val (of_acc (acc s)) = Fin 0 \<longrightarrow>
      calc s = s\<lparr>reg := Str ''Divide by zero.'', err := True,
                  display := Str ''Divide by zero.''\<rparr>"
    by (simp add: calc_def)
  from d n c e1 e2 show ?thesis by (intro conjI) blast+
qed

theorem divide_by_zero_error_witness:
  "op (run [NumberButton ''8'', OpButton ''/'', NumberButton ''0'']) = ''/''
   \<and> parseFloat_val (of_acc (acc (run [NumberButton ''8'', OpButton ''/'', NumberButton ''0''])))
       = Fin 0
   \<and> calc (run [NumberButton ''8'', OpButton ''/'', NumberButton ''0''])
       = (run [NumberButton ''8'', OpButton ''/'', NumberButton ''0''])
           \<lparr>reg := Str ''Divide by zero.'', err := True, display := Str ''Divide by zero.''\<rparr>
   \<and> err (calc (run [NumberButton ''8'', OpButton ''/'', NumberButton ''0'']))
   \<and> numberClick ''5'' (calc (run [NumberButton ''8'', OpButton ''/'', NumberButton ''0'']))
       = numberClick ''5'' (clear (calc (run [NumberButton ''8'', OpButton ''/'', NumberButton ''0''])))"
proof -
  have h: "op (run [NumberButton ''8'', OpButton ''/'', NumberButton ''0'']) = ''/''"
    "parseFloat_val (of_acc (acc (run [NumberButton ''8'', OpButton ''/'', NumberButton ''0''])))
       = Fin 0"
    "err (calc (run [NumberButton ''8'', OpButton ''/'', NumberButton ''0'']))"
    by code_simp+
  show ?thesis
    using divide_by_zero_error [of "run [NumberButton ''8'', OpButton ''/'', NumberButton ''0'']"]
      divide_by_zero_error [of "calc (run [NumberButton ''8'', OpButton ''/'', NumberButton ''0''])"
        "''5''"] h
    by blast
qed

end
